theory Spec2Isabelle
  imports Complex_Main
begin

section \<open>Data model (models/Car.js: the car schema, lines 3-78, and the booking schema, lines 88-153)\<close>

text \<open>
  Documents are records, collections are lists in natural (insertion) order.  Object ids
  are natural numbers.  A valid \<open>Date\<close> is its time value \<open>getTime()\<close>, an integer
  number of milliseconds since the epoch; the result of \<open>new Date(string)\<close> is a
  \<open>date option\<close>, \<open>None\<close> being the Invalid Date.  \<open>pricePerDay\<close> and \<open>totalAmount\<close>
  are JavaScript numbers (\<open>jsnum\<close> below).

  The route handlers are modelled from the point where the express-validator guard has
  passed and the body has been destructured.  That guard lets through date strings that
  \<open>new Date\<close> does not parse (\<open>isISO8601()\<close> accepts a week date such as 2099-W01-1) and
  id strings that are no object ids (\<open>notEmpty()\<close>, or no check at all), so both are
  inputs of the model: a date of a request is a \<open>date option\<close>, an id of a request an
  \<open>oid option\<close>, \<open>None\<close> being a string that does not cast.  A handler returns the
  store it leaves together with its response: \<open>Inl\<close> an error response, \<open>Inr\<close> the
  document of a success response.
\<close>

type_synonym oid = nat
type_synonym date = int

subsection \<open>JavaScript numbers\<close>

text \<open>
  A number is an IEEE 754 double: a finite value, an infinity or NaN (the sign of zero is
  not kept).  \<open>round_double\<close> is the rounding of every arithmetic operation: to the
  nearest double, ties to the even significand, with 53 bits of significand, gradual
  underflow below \<open>2^-1022\<close> and overflow to an infinity from \<open>2^1024 - 2^970\<close> on.
\<close>

datatype jsnum = Num real | PosInf | NegInf | NaN

text \<open>The number of binary digits of a natural number.\<close>

fun bits :: "nat \<Rightarrow> nat" where
  "bits n = (if n = 0 then 0 else Suc (bits (n div 2)))"

declare bits.simps [simp del]

definition pow2 :: "int \<Rightarrow> real" where
  "pow2 k = (if 0 \<le> k then 2 ^ nat k else 1 / 2 ^ nat (- k))"

text \<open>The exponent \<open>e\<close> with \<open>2^e \<le> |x| < 2^(e+1)\<close>, for \<open>x\<close> other than 0.\<close>

definition binade :: "real \<Rightarrow> int" where
  "binade x =
     (if 1 \<le> \<bar>x\<bar> then int (bits (nat \<lfloor>\<bar>x\<bar>\<rfloor>)) - 1
      else - int (bits (nat (\<lceil>1 / \<bar>x\<bar>\<rceil> - 1))))"

definition round_half_even :: "real \<Rightarrow> int" where
  "round_half_even x =
     (let f = \<lfloor>x\<rfloor>; r = x - of_int f
      in if r < 1 / 2 then f else if 1 / 2 < r then f + 1 else if even f then f else f + 1)"

definition round_double :: "real \<Rightarrow> jsnum" where
  "round_double x =
     (if x = 0 then Num 0
      else
        (let ulp = pow2 (max (binade x) (- 1022) - 52);
             r = of_int (round_half_even (x / ulp)) * ulp
         in if pow2 1024 \<le> r then PosInf
            else if r \<le> - pow2 1024 then NegInf
            else Num r))"

text \<open>\<open>totalDays * car.pricePerDay\<close>: the product of an integer number of days (a double
  that holds it exactly) and a number.\<close>

fun js_times :: "int \<Rightarrow> jsnum \<Rightarrow> jsnum" where
  "js_times d (Num p) = round_double (of_int d * p)"
| "js_times d PosInf = (if 0 < d then PosInf else if d < 0 then NegInf else NaN)"
| "js_times d NegInf = (if 0 < d then NegInf else if d < 0 then PosInf else NaN)"
| "js_times d NaN = NaN"

declare js_times.simps(1) [simp del]

text \<open>The validator \<open>min: 0\<close>: \<open>value >= 0\<close>, which NaN fails (it does not cast to a
  number of the schema).\<close>

fun js_ge0 :: "jsnum \<Rightarrow> bool" where
  "js_ge0 (Num r) = (0 \<le> r)"
| "js_ge0 PosInf = True"
| "js_ge0 NegInf = False"
| "js_ge0 NaN = False"

subsection \<open>Dates\<close>

text \<open>\<open>a <= b\<close> on two \<open>Date\<close> objects compares the time values, and is false when one
  of them is the Invalid Date (its time value is NaN).\<close>

fun date_le :: "date option \<Rightarrow> date option \<Rightarrow> bool" where
  "date_le (Some x) (Some y) = (x \<le> y)"
| "date_le _ _ = False"

subsection \<open>Documents\<close>

datatype status = Pending | Confirmed | Active | Completed | Cancelled

datatype paymentStatus = PaymentPending | Paid | Failed | Refunded

record Car =
  car_id :: oid
  pricePerDay :: jsnum
  isAvailable :: bool

record GuestInfo =
  guest_name :: string
  guest_email :: string
  guest_phone :: string

text \<open>Modelled from the spec: models/User.js is not among the sources.  A user document
  has the fields that the guest route writes and queries.\<close>

record User =
  user_id :: oid
  name :: string
  email :: string
  phone :: string
  role :: string
  isGuest :: bool

record Booking =
  booking_id :: oid
  user :: oid
  car :: oid
  startDate :: date
  endDate :: date
  totalDays :: int
  totalAmount :: jsnum
  status :: status
  paymentStatus :: paymentStatus
  pickupLocation :: string
  returnLocation :: string
  specialRequests :: "string option"
  isGuestBooking :: bool
  guestInfo :: "GuestInfo option"

text \<open>The three collections the handlers read and write.\<close>

record DB =
  cars :: "Car list"
  bookings :: "Booking list"
  users :: "User list"

text \<open>
  The body of \<open>POST /api/bookings\<close>, and of \<open>POST /api/bookings/guest\<close>, which adds
  \<open>guestInfo\<close>: \<open>req_car\<close> is the cast of \<open>req.body.car\<close> to an object id,
  \<open>req_startDate\<close> and \<open>req_endDate\<close> are \<open>new Date(startDate)\<close> and
  \<open>new Date(endDate)\<close>.
\<close>

record BookingReq =
  req_car :: "oid option"
  req_startDate :: "date option"
  req_endDate :: "date option"
  req_pickupLocation :: string
  req_returnLocation :: string
  req_specialRequests :: "string option"

record GuestReq = BookingReq +
  req_guestInfo :: GuestInfo

text \<open>
  The error responses of the handlers, one constructor per \<open>res.status(..).json(..)\<close>:
  \<^item> \<open>StartNotInFuture\<close>: 400, "Start date must be in the future";
  \<^item> \<open>EndNotAfterStart\<close>: 400, "End date must be after start date";
  \<^item> \<open>CarNotFound\<close>: 404, "Car not found";
  \<^item> \<open>CarNotAvailable\<close>: 400, "Car is not available";
  \<^item> \<open>DatesNotAvailable\<close>: 400, "Car is not available for the selected dates";
  \<^item> \<open>BookingNotFound\<close>: 404, "Booking not found";
  \<^item> \<open>ServerError\<close>: 500, "Server error", the \<open>catch\<close> block: some awaited call
    has rejected.
\<close>

datatype error =
    StartNotInFuture
  | EndNotAfterStart
  | CarNotFound
  | CarNotAvailable
  | DatesNotAvailable
  | BookingNotFound
  | ServerError

fun http_status :: "error \<Rightarrow> nat" where
  "http_status StartNotInFuture = 400"
| "http_status EndNotAfterStart = 400"
| "http_status CarNotFound = 404"
| "http_status CarNotAvailable = 400"
| "http_status DatesNotAvailable = 400"
| "http_status BookingNotFound = 404"
| "http_status ServerError = 500"

text \<open>The error kinds of the specification, and the kind each response stands for.\<close>

datatype error_kind = InvalidDateRange | NotFound | Unavailable | Conflict | InfrastructureError

fun kind_of :: "error \<Rightarrow> error_kind" where
  "kind_of StartNotInFuture = InvalidDateRange"
| "kind_of EndNotAfterStart = InvalidDateRange"
| "kind_of CarNotFound = NotFound"
| "kind_of CarNotAvailable = Unavailable"
| "kind_of DatesNotAvailable = Conflict"
| "kind_of BookingNotFound = NotFound"
| "kind_of ServerError = InfrastructureError"

section \<open>Store operations\<close>

text \<open>\<open>Car.findById\<close>, \<open>Booking.findById\<close> on an id that has cast: the document with
  that \<open>_id\<close>, if any.\<close>

definition Car_findById :: "Car list \<Rightarrow> oid \<Rightarrow> Car option" where
  "Car_findById cs i = find (\<lambda>c. car_id c = i) cs"

definition Booking_findById :: "Booking list \<Rightarrow> oid \<Rightarrow> Booking option" where
  "Booking_findById bs i = find (\<lambda>b. booking_id b = i) bs"

text \<open>
  The conflict query, written three times in the source with the same shape
  (routes/bookings.js 68-77 and 269-278, unnamed/part_000 334-343), on dates that are
  valid (the query rejects on an Invalid Date, see the handlers):
  \<^verbatim>\<open>Booking.find({ car: carId, status: { $in: statuses },
       $or: [{ startDate: { $lte: end }, endDate: { $gte: start } }] })\<close>
  The result keeps the collection's order.
\<close>

definition find_conflicting ::
  "Booking list \<Rightarrow> oid \<Rightarrow> status list \<Rightarrow> date \<Rightarrow> date \<Rightarrow> Booking list" where
  "find_conflicting bs carId statuses startD endD =
     filter (\<lambda>b. car b = carId \<and> status b \<in> set statuses \<and>
                 startDate b \<le> endD \<and> endDate b \<ge> startD) bs"

text \<open>The status lists of the two booking routes (lines 70 and 271).\<close>

definition auth_blocking :: "status list" where
  "auth_blocking = [Confirmed, Active]"

definition guest_blocking :: "status list" where
  "guest_blocking = [Confirmed, Active, Pending]"

text \<open>\<open>Math.ceil((end.getTime() - start.getTime()) / (1000 * 3600 * 24))\<close>, on two valid
  dates.\<close>

definition ms_per_day :: int where
  "ms_per_day = 1000 * 3600 * 24"

definition days_between :: "date \<Rightarrow> date \<Rightarrow> int" where
  "days_between startD endD = \<lceil>(of_int (endD - startD) :: rat) / of_int ms_per_day\<rceil>"

text \<open>A new \<open>_id\<close>: one that no document of the collection has.\<close>

definition fresh_id :: "oid list \<Rightarrow> oid" where
  "fresh_id ids = Suc (fold max ids 0)"

text \<open>
  The object literal handed to \<open>Booking.create\<close>.  \<open>status\<close>, \<open>isGuestBooking\<close> and
  \<open>guestInfo\<close> are given by the guest route only; the schema defaults fill them in
  otherwise (\<open>status\<close>: 'pending', \<open>paymentStatus\<close>: 'pending', \<open>isGuestBooking\<close>: false).
\<close>

record BookingFields =
  f_user :: oid
  f_car :: oid
  f_startDate :: date
  f_endDate :: date
  f_totalDays :: int
  f_totalAmount :: jsnum
  f_pickupLocation :: string
  f_returnLocation :: string
  f_specialRequests :: "string option"
  f_status :: "status option"
  f_isGuestBooking :: "bool option"
  f_guestInfo :: "GuestInfo option"

definition new_document :: "oid \<Rightarrow> BookingFields \<Rightarrow> Booking" where
  "new_document i f =
     \<lparr> booking_id = i, user = f_user f, car = f_car f,
       startDate = f_startDate f, endDate = f_endDate f,
       totalDays = f_totalDays f, totalAmount = f_totalAmount f,
       status = (case f_status f of None \<Rightarrow> Pending | Some s \<Rightarrow> s),
       paymentStatus = PaymentPending,
       pickupLocation = f_pickupLocation f, returnLocation = f_returnLocation f,
       specialRequests = f_specialRequests f,
       isGuestBooking = (case f_isGuestBooking f of None \<Rightarrow> False | Some g \<Rightarrow> g),
       guestInfo = f_guestInfo f \<rparr>"

text \<open>
  \<open>bookingSchema.pre('validate')\<close>: an error when \<open>startDate >= endDate\<close>, and
  \<open>totalDays\<close> recomputed from the two dates.
\<close>

definition pre_validate :: "Booking \<Rightarrow> Booking option" where
  "pre_validate b =
     (if startDate b \<ge> endDate b then None
      else Some (b\<lparr>totalDays := days_between (startDate b) (endDate b)\<rparr>))"

text \<open>
  The schema's validators that a document built by the routes can fail:
  \<open>totalAmount\<close> has \<open>min: 0\<close>, and the two required location strings must not be empty.
\<close>

definition schema_valid :: "Booking \<Rightarrow> bool" where
  "schema_valid b \<longleftrightarrow>
     js_ge0 (totalAmount b) \<and> pickupLocation b \<noteq> [] \<and> returnLocation b \<noteq> []"

text \<open>
  \<open>Booking.create\<close>: defaults, the pre-validate hook, the validators, then the insert at
  the end of the collection.  \<open>None\<close> is the rejected promise; nothing is inserted then.
\<close>

definition Booking_create :: "Booking list \<Rightarrow> BookingFields \<Rightarrow> (Booking list \<times> Booking) option" where
  "Booking_create bs f =
     (case pre_validate (new_document (fresh_id (map booking_id bs)) f) of
        None \<Rightarrow> None
      | Some b \<Rightarrow> if schema_valid b then Some (bs @ [b], b) else None)"

section \<open>POST /api/bookings (routes/bookings.js 30-117)\<close>

text \<open>
  The handler body, in the order of the source.  An awaited call that rejects is caught by
  the \<open>catch\<close> block and answered \<open>ServerError\<close>:
  \<^item> \<open>Car.findById(carId)\<close> rejects with a cast error when \<open>carId\<close> is no object id;
  \<^item> the conflict query rejects with a cast error when \<open>start\<close> or \<open>end\<close> is the
    Invalid Date;
  \<^item> \<open>Booking.create\<close> rejects when the hook or a validator refuses the document;
  \<^item> \<open>booking.populate\<close> (line 104) reads the store once more after the insert; whether
    it returns is the argument \<open>populates\<close>.  When it rejects, the reservation has been
    inserted already.
\<close>

definition createBooking ::
  "DB \<Rightarrow> oid \<Rightarrow> 'a BookingReq_scheme \<Rightarrow> date \<Rightarrow> bool \<Rightarrow> DB \<times> (error + Booking)" where
  "createBooking db uid req now populates =
     (let startD = req_startDate req; endD = req_endDate req in
      if date_le startD (Some now) then (db, Inl StartNotInFuture)
      else if date_le endD startD then (db, Inl EndNotAfterStart)
      else
        (case req_car req of
           None \<Rightarrow> (db, Inl ServerError)
         | Some carId \<Rightarrow>
            (case Car_findById (cars db) carId of
               None \<Rightarrow> (db, Inl CarNotFound)
             | Some c \<Rightarrow>
                 if \<not> isAvailable c then (db, Inl CarNotAvailable)
                 else
                   (case (startD, endD) of
                      (Some s, Some e) \<Rightarrow>
                        if find_conflicting (bookings db) carId auth_blocking s e \<noteq> []
                        then (db, Inl DatesNotAvailable)
                        else
                          (let totalDays = days_between s e;
                               totalAmount = js_times totalDays (pricePerDay c)
                           in case Booking_create (bookings db)
                                \<lparr> f_user = uid, f_car = carId,
                                  f_startDate = s, f_endDate = e,
                                  f_totalDays = totalDays, f_totalAmount = totalAmount,
                                  f_pickupLocation = req_pickupLocation req,
                                  f_returnLocation = req_returnLocation req,
                                  f_specialRequests = req_specialRequests req,
                                  f_status = None, f_isGuestBooking = None,
                                  f_guestInfo = None \<rparr> of
                                None \<Rightarrow> (db, Inl ServerError)
                              | Some (bs', b) \<Rightarrow>
                                  if populates then (db\<lparr>bookings := bs'\<rparr>, Inr b)
                                  else (db\<lparr>bookings := bs'\<rparr>, Inl ServerError))
                    | _ \<Rightarrow> (db, Inl ServerError)))))"

section \<open>POST /api/bookings/guest (routes/bookings.js 223-344)\<close>

text \<open>Modelled from the spec: models/User.js is not among the sources.
  \<open>User.findOne({email, isGuest: true})\<close> is the first guest identity with that email
  ("an upsert keyed on (email, guestFlag=true)").\<close>

definition User_findGuest :: "User list \<Rightarrow> string \<Rightarrow> User option" where
  "User_findGuest us e = find (\<lambda>u. email u = e \<and> isGuest u) us"

text \<open>Modelled from the spec: models/User.js is not among the sources.  \<open>User.create\<close>
  inserts the given fields under a new id and does not fail ("otherwise create one").\<close>

definition User_create :: "User list \<Rightarrow> string \<Rightarrow> string \<Rightarrow> string \<Rightarrow> User list \<times> User" where
  "User_create us n e p =
     (let u = \<lparr> user_id = fresh_id (map user_id us), name = n, email = e, phone = p,
                role = ''guest'', isGuest = True \<rparr>
      in (us @ [u], u))"

text \<open>Modelled from the spec: models/User.js is not among the sources.  \<open>save\<close> writes
  the document back under its \<open>_id\<close> ("update its name/phone in place and reuse its
  id").\<close>

definition User_save :: "User list \<Rightarrow> User \<Rightarrow> User list" where
  "User_save us u = map (\<lambda>x. if user_id x = user_id u then u else x) us"

text \<open>Lines 292-307: create or find the guest user.\<close>

definition upsertGuest :: "User list \<Rightarrow> GuestInfo \<Rightarrow> User list \<times> User" where
  "upsertGuest us g =
     (case User_findGuest us (guest_email g) of
        None \<Rightarrow> User_create us (guest_name g) (guest_email g) (guest_phone g)
      | Some u \<Rightarrow>
          (let u' = u\<lparr>name := guest_name g, phone := guest_phone g\<rparr>
           in (User_save us u', u')))"

text \<open>The handler body: the checks of the authenticated route with the guest status list,
  then the guest identity, then the insert and the \<open>populate\<close> of line 330.\<close>

definition createGuestBooking ::
  "DB \<Rightarrow> 'a GuestReq_scheme \<Rightarrow> date \<Rightarrow> bool \<Rightarrow> DB \<times> (error + Booking)" where
  "createGuestBooking db req now populates =
     (let startD = req_startDate req; endD = req_endDate req; g = req_guestInfo req in
      if date_le startD (Some now) then (db, Inl StartNotInFuture)
      else if date_le endD startD then (db, Inl EndNotAfterStart)
      else
        (case req_car req of
           None \<Rightarrow> (db, Inl ServerError)
         | Some carId \<Rightarrow>
            (case Car_findById (cars db) carId of
               None \<Rightarrow> (db, Inl CarNotFound)
             | Some c \<Rightarrow>
                 if \<not> isAvailable c then (db, Inl CarNotAvailable)
                 else
                   (case (startD, endD) of
                      (Some s, Some e) \<Rightarrow>
                        if find_conflicting (bookings db) carId guest_blocking s e \<noteq> []
                        then (db, Inl DatesNotAvailable)
                        else
                          (let totalDays = days_between s e;
                               totalAmount = js_times totalDays (pricePerDay c);
                               (us', guestUser) = upsertGuest (users db) g;
                               db1 = db\<lparr>users := us'\<rparr>
                           in case Booking_create (bookings db1)
                                \<lparr> f_user = user_id guestUser, f_car = carId,
                                  f_startDate = s, f_endDate = e,
                                  f_totalDays = totalDays, f_totalAmount = totalAmount,
                                  f_pickupLocation = req_pickupLocation req,
                                  f_returnLocation = req_returnLocation req,
                                  f_specialRequests = req_specialRequests req,
                                  f_status = Some Pending, f_isGuestBooking = Some True,
                                  f_guestInfo = Some \<lparr> guest_name = guest_name g,
                                                       guest_email = guest_email g,
                                                       guest_phone = guest_phone g \<rparr> \<rparr> of
                                None \<Rightarrow> (db1, Inl ServerError)
                              | Some (bs', b) \<Rightarrow>
                                  if populates then (db1\<lparr>bookings := bs'\<rparr>, Inr b)
                                  else (db1\<lparr>bookings := bs'\<rparr>, Inl ServerError))
                    | _ \<Rightarrow> (db, Inl ServerError)))))"

section \<open>GET /api/cars/:id/availability (unnamed/part_000 307-362)\<close>

text \<open>The route on a car id that has cast and on two dates that have parsed.\<close>

record Availability =
  available :: bool
  conflictingDates :: "(date \<times> date) list"

definition checkAvailability :: "DB \<Rightarrow> oid \<Rightarrow> date \<Rightarrow> date \<Rightarrow> error + Availability" where
  "checkAvailability db carId startD endD =
     (case Car_findById (cars db) carId of
        None \<Rightarrow> Inl CarNotFound
      | Some c \<Rightarrow>
          (let conflictingBookings = find_conflicting (bookings db) carId [Confirmed, Active] startD endD
           in Inr \<lparr> available = (length conflictingBookings = 0 \<and> isAvailable c),
                    conflictingDates = map (\<lambda>b. (startDate b, endDate b)) conflictingBookings \<rparr>))"

section \<open>PUT /api/admin/bookings/:id/status (unnamed/part_000 101-139)\<close>

text \<open>
  \<open>Booking.findByIdAndUpdate(req.params.id, {status}, {new: true})\<close>.  The route does
  not validate \<open>req.params.id\<close>: when it is no object id the call rejects with a cast
  error (the outer \<open>None\<close>).  Otherwise the document with that id gets the status and is
  returned as updated, \<open>null\<close> (the inner \<open>None\<close>) when there is none.  No validator
  and no hook runs, and the old status is not read; the \<open>populate\<close> chained to the
  query decorates the returned document and is taken to return.  (An \<open>_id\<close> is unique in the store;
  on a list the write goes to every document that carries the id.)
\<close>

definition Booking_findByIdAndUpdate ::
  "Booking list \<Rightarrow> oid option \<Rightarrow> status \<Rightarrow> (Booking list \<times> Booking option) option" where
  "Booking_findByIdAndUpdate bs idp s =
     (case idp of
        None \<Rightarrow> None
      | Some i \<Rightarrow>
          (case Booking_findById bs i of
             None \<Rightarrow> Some (bs, None)
           | Some b \<Rightarrow>
               Some (map (\<lambda>x. if booking_id x = i then x\<lparr>status := s\<rparr> else x) bs,
                     Some (b\<lparr>status := s\<rparr>))))"

text \<open>The handler: the rejected call is answered by the \<open>catch\<close> block (lines 132-138),
  \<open>null\<close> by "Booking not found".\<close>

definition updateBookingStatus :: "DB \<Rightarrow> oid option \<Rightarrow> status \<Rightarrow> DB \<times> (error + Booking)" where
  "updateBookingStatus db idp s =
     (case Booking_findByIdAndUpdate (bookings db) idp s of
        None \<Rightarrow> (db, Inl ServerError)
      | Some (bs', None) \<Rightarrow> (db, Inl BookingNotFound)
      | Some (bs', Some b) \<Rightarrow> (db\<lparr>bookings := bs'\<rparr>, Inr b))"

section \<open>Sequences of guest bookings\<close>

text \<open>The guest identities with a given email: the records that \<open>User.findOne\<close> with
  \<open>{email, isGuest: true}\<close> can match.\<close>

definition guests_with :: "User list \<Rightarrow> string \<Rightarrow> User list" where
  "guests_with us e = filter (\<lambda>u. email u = e \<and> isGuest u) us"

text \<open>The state of the user collection that the guest route maintains: ids are unique (as
  \<open>_id\<close> is in the store) and no two guest identities share an email.\<close>

definition users_ok :: "User list \<Rightarrow> bool" where
  "users_ok us \<longleftrightarrow> distinct (map user_id us) \<and> distinct (map email (filter isGuest us))"

text \<open>Guest requests handled one after the other, each with its request time and with
  whether its \<open>populate\<close> returns; the responses are collected in order.\<close>

fun guest_run :: "DB \<Rightarrow> (GuestReq \<times> date \<times> bool) list \<Rightarrow> DB \<times> (error + Booking) list" where
  "guest_run db [] = (db, [])"
| "guest_run db (c # cs) =
     (let (db1, r) = createGuestBooking db (fst c) (fst (snd c)) (snd (snd c));
          (db2, rs) = guest_run db1 cs
      in (db2, r # rs))"

section \<open>Sample data\<close>

text \<open>
  Four cars: car 1 is available at 50 per day, car 2 is switched off by an admin, car 3
  carries a negative price (the value makes \<open>Booking.create\<close> reject the document), and
  car 5 costs 0.1 per day, that is the double \<open>3602879701896397 / 2^55\<close> nearest to 0.1.
  No car has id 4.  The sample request asks for a car from 2099-01-10 to 2099-01-13 (UTC
  midnights: days 47126 and 47129 after the epoch), and arrives on 2026-11-02.
\<close>

definition ex_car :: Car where
  "ex_car = \<lparr> car_id = 1, pricePerDay = Num 50, isAvailable = True \<rparr>"

definition ex_car_off :: Car where
  "ex_car_off = \<lparr> car_id = 2, pricePerDay = Num 80, isAvailable = False \<rparr>"

definition ex_car_neg :: Car where
  "ex_car_neg = \<lparr> car_id = 3, pricePerDay = Num (- 5), isAvailable = True \<rparr>"

definition ex_car_dime :: Car where
  "ex_car_dime =
     \<lparr> car_id = 5, pricePerDay = Num (3602879701896397 / 36028797018963968),
       isAvailable = True \<rparr>"

definition ex_start :: date where
  "ex_start = 4071686400000"

definition ex_end :: date where
  "ex_end = 4071945600000"

definition ex_now :: date where
  "ex_now = 1793577600000"

definition ex_db :: DB where
  "ex_db = \<lparr> cars = [ex_car, ex_car_off, ex_car_neg, ex_car_dime], bookings = [], users = [] \<rparr>"

text \<open>Requests whose car id casts and whose dates parse.\<close>

definition ex_req :: "oid \<Rightarrow> date \<Rightarrow> date \<Rightarrow> BookingReq" where
  "ex_req c s e =
     \<lparr> req_car = Some c, req_startDate = Some s, req_endDate = Some e,
       req_pickupLocation = ''Airport'', req_returnLocation = ''Airport'',
       req_specialRequests = None \<rparr>"

definition ex_guest :: "string \<Rightarrow> string \<Rightarrow> GuestInfo" where
  "ex_guest n p = \<lparr> guest_name = n, guest_email = ''ann@example.org'', guest_phone = p \<rparr>"

definition ex_greq :: "oid \<Rightarrow> date \<Rightarrow> date \<Rightarrow> GuestInfo \<Rightarrow> GuestReq" where
  "ex_greq c s e g =
     \<lparr> req_car = Some c, req_startDate = Some s, req_endDate = Some e,
       req_pickupLocation = ''Airport'', req_returnLocation = ''Airport'',
       req_specialRequests = None, req_guestInfo = g \<rparr>"

text \<open>A stored reservation of car 1 over the sample range, in a given status.\<close>

definition ex_booking :: "status \<Rightarrow> Booking" where
  "ex_booking st =
     \<lparr> booking_id = 1, user = 7, car = 1, startDate = ex_start, endDate = ex_end,
       totalDays = 3, totalAmount = Num 150, status = st, paymentStatus = PaymentPending,
       pickupLocation = ''Airport'', returnLocation = ''Airport'', specialRequests = None,
       isGuestBooking = False, guestInfo = None \<rparr>"

definition ex_db_with :: "status \<Rightarrow> DB" where
  "ex_db_with st = ex_db\<lparr>bookings := [ex_booking st]\<rparr>"

text \<open>The guest identity and the guest reservation that the sample guest request creates.\<close>

definition ex_user :: "string \<Rightarrow> string \<Rightarrow> User" where
  "ex_user n p = \<lparr> user_id = 1, name = n, email = ''ann@example.org'', phone = p,
                  role = ''guest'', isGuest = True \<rparr>"

definition ex_guest_booking :: "oid \<Rightarrow> date \<Rightarrow> date \<Rightarrow> GuestInfo \<Rightarrow> Booking" where
  "ex_guest_booking i s e g =
     \<lparr> booking_id = i, user = 1, car = 1, startDate = s, endDate = e,
       totalDays = 3, totalAmount = Num 150, status = Pending, paymentStatus = PaymentPending,
       pickupLocation = ''Airport'', returnLocation = ''Airport'', specialRequests = None,
       isGuestBooking = True, guestInfo = Some g \<rparr>"

text \<open>The reservation of car 5 that the sample request creates: three days at 0.1 are
  stored as the double \<open>5404319552844596 / 2^54\<close>, printed 0.30000000000000004.\<close>

definition ex_booking_dime :: Booking where
  "ex_booking_dime =
     (ex_booking Pending)
       \<lparr>user := 8, car := 5, totalAmount := Num (5404319552844596 / 18014398509481984)\<rparr>"

section \<open>Predicates used in the statements\<close>

text \<open>A request that gets past the date checks and the two car checks of a booking route
  at time \<open>now\<close>, and whose document the schema then accepts (non-negative price, both
  locations given).\<close>

definition passes_checks :: "DB \<Rightarrow> 'a BookingReq_scheme \<Rightarrow> date \<Rightarrow> bool" where
  "passes_checks db req now \<longleftrightarrow>
     (case (req_startDate req, req_endDate req, req_car req) of
        (Some s, Some e, Some i) \<Rightarrow>
          now < s \<and> s < e \<and>
          (case Car_findById (cars db) i of
             None \<Rightarrow> False
           | Some c \<Rightarrow> isAvailable c \<and> js_ge0 (pricePerDay c))
      | _ \<Rightarrow> False) \<and>
     req_pickupLocation req \<noteq> [] \<and> req_returnLocation req \<noteq> []"

text \<open>Every guest identity of \<open>us\<close> is still a guest identity of \<open>us'\<close>, under the same
  id and email.\<close>

definition guest_ids_kept :: "User list \<Rightarrow> User list \<Rightarrow> bool" where
  "guest_ids_kept us us' \<longleftrightarrow>
     (\<forall>u0 \<in> set us. isGuest u0 \<longrightarrow>
        (\<exists>u1 \<in> set us'. isGuest u1 \<and> email u1 = email u0 \<and> user_id u1 = user_id u0))"

text \<open>Two guest bookings with the same email, one minute apart, for different ranges and
  with a changed name and phone, the \<open>populate\<close> of both returning; and the store they
  leave.\<close>

definition ex_calls :: "(GuestReq \<times> date \<times> bool) list" where
  "ex_calls =
     [(ex_greq 1 ex_start ex_end (ex_guest ''Ann'' ''555''), ex_now, True),
      (ex_greq 1 (ex_end + 86400000) (ex_end + 259200000) (ex_guest ''Ann B.'' ''777''),
       ex_now + 60000, True)]"

definition ex_db_after :: DB where
  "ex_db_after =
     ex_db\<lparr>users := [ex_user ''Ann B.'' ''777''],
           bookings := [ex_guest_booking 1 ex_start ex_end (ex_guest ''Ann'' ''555''),
              (ex_guest_booking 2 (ex_end + 86400000) (ex_end + 259200000) (ex_guest ''Ann B.'' ''777''))
                 \<lparr>totalDays := 2, totalAmount := Num 100\<rparr>]\<rparr>"

section \<open>Auxiliary facts\<close>

lemmas ex_defs =
  ex_car_def ex_car_off_def ex_car_neg_def ex_car_dime_def ex_start_def ex_end_def ex_now_def
  ex_db_def ex_req_def ex_guest_def ex_greq_def ex_booking_def ex_db_with_def ex_user_def
  ex_guest_booking_def ex_booking_dime_def ex_calls_def ex_db_after_def

lemmas route_defs =
  createBooking_def createGuestBooking_def Car_findById_def find_conflicting_def
  auth_blocking_def guest_blocking_def Booking_create_def pre_validate_def new_document_def
  fresh_id_def schema_valid_def upsertGuest_def User_findGuest_def User_create_def
  User_save_def Let_def

text \<open>Evaluation of the rounding on numerals.\<close>

lemma bits_0: "bits 0 = 0"
  by (simp add: bits.simps)

lemma bits_pos: "0 < n \<Longrightarrow> bits n = Suc (bits (n div 2))"
  by (subst bits.simps) simp

lemmas num_eval =
  round_double_def binade_def round_half_even_def pow2_def bits_0 bits_pos Let_def

text \<open>The products of the sample data; the last is 3 times 0.1, a tie between two doubles
  that goes to the even one above.\<close>

lemma js_times_150: "js_times 3 (Num 50) = Num 150"
  by (simp add: js_times.simps num_eval)

lemma js_times_100: "js_times 2 (Num 50) = Num 100"
  by (simp add: js_times.simps num_eval)

lemma js_times_neg: "js_times 3 (Num (- 5)) = Num (- 15)"
  by (simp add: js_times.simps num_eval)

lemma js_times_dime:
  "js_times 3 (Num (3602879701896397 / 36028797018963968)) =
     Num (5404319552844596 / 18014398509481984)"
  by (simp add: js_times.simps num_eval)

text \<open>The doubles nearest to 0.1 and to 0.3, as every IEEE 754 implementation has them.\<close>

lemma round_double_tenth: "round_double (1 / 10) = Num (3602879701896397 / 36028797018963968)"
  by (simp add: num_eval)

lemma round_double_three_tenths:
  "round_double (3 / 10) = Num (5404319552844595 / 18014398509481984)"
  by (simp add: num_eval)

text \<open>Rounding keeps the sign, so a non-negative price gives an amount the schema admits.\<close>

lemma pow2_pos: "0 < pow2 k"
  by (simp add: pow2_def)

lemma round_half_even_nonneg: "0 \<le> x \<Longrightarrow> 0 \<le> round_half_even x"
  by (auto simp: round_half_even_def Let_def)

lemma round_double_nonneg: "0 \<le> x \<Longrightarrow> js_ge0 (round_double x)"
proof -
  assume x: "0 \<le> x"
  define u where "u = pow2 (max (binade x) (- 1022) - 52)"
  have u: "0 < u" by (simp add: u_def pow2_pos)
  then have "0 \<le> x / u" using x by simp
  then have "0 \<le> real_of_int (round_half_even (x / u)) * u"
    using u round_half_even_nonneg [of "x / u"] by simp
  moreover have "0 < pow2 1024" by (rule pow2_pos)
  ultimately show ?thesis
    unfolding round_double_def Let_def u_def [symmetric] by auto
qed

lemma js_times_nonneg: "0 < d \<Longrightarrow> js_ge0 p \<Longrightarrow> js_ge0 (js_times d p)"
  by (cases p) (simp_all add: js_times.simps round_double_nonneg)

text \<open>The rounding is the one of the standard: \<open>binade\<close> is the exponent of its
  argument, and the result is a multiple of the spacing of the doubles there, at most half
  a spacing away (a tie goes to the even multiple, by \<open>round_half_even\<close>).\<close>

lemma bits_bounds: "0 < n \<Longrightarrow> 2 ^ (bits n - 1) \<le> n \<and> n < 2 ^ bits n"
proof (induction n rule: bits.induct)
  case (1 n)
  show ?case
  proof (cases "n div 2 = 0")
    case True
    with "1.prems" have "n = 1" by (simp add: div_eq_0_iff) 
    then show ?thesis by (simp add: bits_pos bits_0)
  next
    case False
    then have pos: "0 < n div 2" by simp
    from "1.IH" [OF _ pos] "1.prems"
    have ih: "2 ^ (bits (n div 2) - 1) \<le> n div 2" "n div 2 < 2 ^ bits (n div 2)" by simp_all
    have b: "bits n = Suc (bits (n div 2))" using "1.prems" by (simp add: bits_pos)
    have bp: "0 < bits (n div 2)" using pos by (simp add: bits_pos)
    have "2 ^ bits (n div 2) \<le> 2 * (n div 2)"
    proof -
      have "(2::nat) ^ bits (n div 2) = 2 * 2 ^ (bits (n div 2) - 1)"
        using bp by (cases "bits (n div 2)") simp_all
      with ih(1) show ?thesis by simp
    qed
    then have lo: "2 ^ bits (n div 2) \<le> n" by linarith
    have hi: "n < 2 * 2 ^ bits (n div 2)" using ih(2) by linarith
    from lo hi b show ?thesis by simp
  qed
qed

lemma pow2_nat: "pow2 (int k) = 2 ^ k"
  by (simp add: pow2_def)

lemma pow2_neg_nat: "pow2 (- int k) = 1 / 2 ^ k"
  by (cases k) (simp_all add: pow2_def nat_add_distrib)

lemma binade_bounds:
  assumes "x \<noteq> 0"
  shows "pow2 (binade x) \<le> \<bar>x\<bar> \<and> \<bar>x\<bar> < pow2 (binade x + 1)"
proof (cases "1 \<le> \<bar>x\<bar>")
  case True
  define m where "m = nat \<lfloor>\<bar>x\<bar>\<rfloor>"
  have m: "0 < m" "real m \<le> \<bar>x\<bar>" "\<bar>x\<bar> < real m + 1"
  proof -
    show "0 < m" using True by (simp add: m_def)
    show "real m \<le> \<bar>x\<bar>" using True by (simp add: m_def)
    show "\<bar>x\<bar> < real m + 1" using True unfolding m_def by linarith
  qed
  from bits_bounds [OF m(1)] have b: "2 ^ (bits m - 1) \<le> m" "m < 2 ^ bits m" by simp_all
  have bp: "0 < bits m" using m(1) by (simp add: bits_pos)
  have e: "binade x = int (bits m - 1)"
    using True bp by (simp add: binade_def m_def of_nat_diff)
  have "real m + 1 \<le> 2 ^ bits m"
    using b(2) by (metis Suc_leI of_nat_Suc of_nat_le_iff of_nat_numeral of_nat_power add.commute)
  moreover have "(2::real) ^ (bits m - 1) \<le> real m"
    using b(1) by (metis of_nat_le_iff of_nat_numeral of_nat_power)
  moreover have "pow2 (binade x) = 2 ^ (bits m - 1)"
    unfolding e by (rule pow2_nat)
  moreover have "pow2 (binade x + 1) = 2 ^ bits m"
  proof -
    have "binade x + 1 = int (bits m)" using e bp by simp
    then show ?thesis by (simp only: pow2_nat)
  qed
  ultimately show ?thesis
    using m by linarith
next
  case False
  define z where "z = 1 / \<bar>x\<bar>"
  have z: "1 < z" using False assms by (simp add: z_def)
  define m where "m = nat (\<lceil>z\<rceil> - 1)"
  have m: "0 < m" "real m < z" "z \<le> real m + 1"
  proof -
    show "0 < m" using z unfolding m_def by linarith
    show "real m < z" using z unfolding m_def by linarith
    show "z \<le> real m + 1" using z unfolding m_def by linarith
  qed
  from bits_bounds [OF m(1)] have b: "2 ^ (bits m - 1) \<le> m" "m < 2 ^ bits m" by simp_all
  have bp: "0 < bits m" using m(1) by (simp add: bits_pos)
  have e: "binade x = - int (bits m)"
    using False by (simp add: binade_def m_def z_def)
  have hi: "z \<le> 2 ^ bits m"
  proof -
    have "real m + 1 \<le> 2 ^ bits m"
      using b(2) by (metis Suc_leI of_nat_Suc of_nat_le_iff of_nat_numeral of_nat_power add.commute)
    with m(3) show ?thesis by linarith
  qed
  have lo: "2 ^ (bits m - 1) < z"
  proof -
    have "(2::real) ^ (bits m - 1) \<le> real m"
      using b(1) by (metis of_nat_le_iff of_nat_numeral of_nat_power)
    with m(2) show ?thesis by linarith
  qed
  have xz: "\<bar>x\<bar> = 1 / z" using assms by (simp add: z_def)
  have "1 / 2 ^ bits m \<le> 1 / z"
    using hi z by (intro divide_left_mono) simp_all
  moreover have "1 / z < 1 / 2 ^ (bits m - 1)"
    using lo z by (intro divide_strict_left_mono mult_pos_pos) simp_all
  moreover have "pow2 (binade x) = 1 / 2 ^ bits m"
    unfolding e by (rule pow2_neg_nat)
  moreover have "pow2 (binade x + 1) = 1 / 2 ^ (bits m - 1)"
  proof -
    have "binade x + 1 = - int (bits m - 1)" using e bp by simp
    then show ?thesis by (simp only: pow2_neg_nat)
  qed
  ultimately show ?thesis
    using xz by linarith
qed

lemma round_half_even_near: "\<bar>real_of_int (round_half_even y) - y\<bar> \<le> 1 / 2"
  unfolding round_half_even_def Let_def by (auto; linarith)


lemma round_double_near:
  assumes "x \<noteq> 0" and "round_double x = Num r"
  defines "ulp \<equiv> pow2 (max (binade x) (- 1022) - 52)"
  shows "\<bar>r - x\<bar> \<le> ulp / 2 \<and> (\<exists>n. r = of_int n * ulp)"
proof -
  have u: "0 < ulp" by (simp add: ulp_def pow2_pos)
  have r: "r = of_int (round_half_even (x / ulp)) * ulp"
    using assms(1,2) unfolding round_double_def Let_def ulp_def
    by (auto split: if_splits)
  have "\<bar>r - x\<bar> = \<bar>real_of_int (round_half_even (x / ulp)) - x / ulp\<bar> * ulp"
  proof -
    have "r - x = (real_of_int (round_half_even (x / ulp)) - x / ulp) * ulp"
      using u by (simp add: r field_simps)
    then show ?thesis using u by (simp add: abs_mult)
  qed
  also have "\<dots> \<le> (1 / 2) * ulp"
    using round_half_even_near [of "x / ulp"] u by (intro mult_right_mono) simp_all
  finally show ?thesis using r by auto
qed

text \<open>A tie at \<open>2^53 + 1\<close>, and the overflow threshold.\<close>

lemma round_double_tie_even: "round_double 9007199254740993 = Num 9007199254740992"
  by (simp add: num_eval)

lemma round_double_overflow: "round_double (pow2 1024 - pow2 970) = PosInf"
  by (simp add: num_eval)

lemma days_between_div: "days_between s e = - ((s - e) div 86400000)"
proof -
  have "\<lceil>rat_of_int (e - s) / rat_of_int 86400000\<rceil> = - (- (e - s) div 86400000)"
    by (rule ceiling_divide_eq_div)
  then show ?thesis
    by (simp add: days_between_def ms_per_day_def)
qed

lemma days_between_ge1: "s < e \<Longrightarrow> 1 \<le> days_between s e"
  unfolding days_between_div by linarith

text \<open>What a successful call of either booking route has checked and stored.\<close>

lemma createBooking_Inr:
  assumes "createBooking db uid req now p = (db', Inr b)"
  shows "\<exists>s e i c. req_startDate req = Some s \<and> req_endDate req = Some e \<and>
     req_car req = Some i \<and> p \<and>
     Car_findById (cars db) i = Some c \<and> isAvailable c \<and> now < s \<and> s < e \<and>
     find_conflicting (bookings db) i auth_blocking s e = [] \<and>
     totalDays b = days_between s e \<and>
     totalAmount b = js_times (days_between s e) (pricePerDay c) \<and>
     status b = Pending \<and> user b = uid \<and> car b = i \<and>
     startDate b = s \<and> endDate b = e \<and>
     booking_id b = fresh_id (map booking_id (bookings db)) \<and>
     db' = db\<lparr>bookings := bookings db @ [b]\<rparr>"
proof (cases "req_startDate req")
  case None
  with assms show ?thesis
    by (auto simp: createBooking_def Let_def split: option.splits if_splits)
next
  case s: (Some s)
  show ?thesis
  proof (cases "req_endDate req")
    case None
    with assms s show ?thesis
      by (auto simp: createBooking_def Let_def split: option.splits if_splits)
  next
    case e: (Some e)
    with assms s show ?thesis
      by (auto simp: createBooking_def Let_def Booking_create_def pre_validate_def
          new_document_def split: option.splits if_splits)
  qed
qed

lemma createGuestBooking_Inr:
  assumes "createGuestBooking db req now p = (db', Inr b)"
  shows "\<exists>s e i c. req_startDate req = Some s \<and> req_endDate req = Some e \<and>
     req_car req = Some i \<and> p \<and>
     Car_findById (cars db) i = Some c \<and> isAvailable c \<and> now < s \<and> s < e \<and>
     find_conflicting (bookings db) i guest_blocking s e = [] \<and>
     totalDays b = days_between s e \<and>
     totalAmount b = js_times (days_between s e) (pricePerDay c) \<and>
     status b = Pending \<and>
     user b = user_id (snd (upsertGuest (users db) (req_guestInfo req))) \<and>
     car b = i \<and> startDate b = s \<and> endDate b = e \<and>
     booking_id b = fresh_id (map booking_id (bookings db)) \<and>
     db' = db\<lparr>users := fst (upsertGuest (users db) (req_guestInfo req)),
              bookings := bookings db @ [b]\<rparr>"
proof (cases "req_startDate req")
  case None
  with assms show ?thesis
    by (auto simp: createGuestBooking_def Let_def split: option.splits if_splits)
next
  case s: (Some s)
  show ?thesis
  proof (cases "req_endDate req")
    case None
    with assms s show ?thesis
      by (auto simp: createGuestBooking_def Let_def split: option.splits if_splits)
  next
    case e: (Some e)
    with assms s show ?thesis
      by (auto simp: createGuestBooking_def Let_def Booking_create_def pre_validate_def
          new_document_def split: option.splits if_splits prod.splits)
  qed
qed

text \<open>The two sample requests on the empty reservation store.\<close>

lemma ex_createBooking:
  "createBooking ex_db 8 (ex_req 1 ex_start ex_end) ex_now True =
     (ex_db\<lparr>bookings := [(ex_booking Pending)\<lparr>user := 8\<rparr>]\<rparr>, Inr ((ex_booking Pending)\<lparr>user := 8\<rparr>))"
  by (simp add: ex_defs route_defs days_between_div js_times_150)

lemma ex_createGuestBooking:
  "createGuestBooking ex_db (ex_greq 1 ex_start ex_end (ex_guest ''Ann'' ''555'')) ex_now True =
     (ex_db\<lparr>users := [ex_user ''Ann'' ''555''],
            bookings := [ex_guest_booking 1 ex_start ex_end (ex_guest ''Ann'' ''555'')]\<rparr>,
      Inr (ex_guest_booking 1 ex_start ex_end (ex_guest ''Ann'' ''555'')))"
  by (simp add: ex_defs route_defs days_between_div js_times_150)

lemma ex_createBooking_dime:
  "createBooking ex_db 8 (ex_req 5 ex_start ex_end) ex_now True =
     (ex_db\<lparr>bookings := [ex_booking_dime]\<rparr>, Inr ex_booking_dime)"
  by (simp add: ex_defs route_defs days_between_div js_times_dime)

text \<open>Overwriting the status of the documents with an id keeps the lookup by that id.\<close>

lemma find_map_update:
  "find (\<lambda>b. booking_id b = i) bs = Some b \<Longrightarrow>
   find (\<lambda>b. booking_id b = i) (map (\<lambda>x. if booking_id x = i then x\<lparr>status := s\<rparr> else x) bs)
     = Some (b\<lparr>status := s\<rparr>)"
  by (induction bs) (auto split: if_splits)

text \<open>The outcome of the two booking routes on a request that passes the checks and meets
  no conflict: the reservation is inserted, and the answer is the reservation when the
  \<open>populate\<close> returns and a server error when it does not.\<close>

lemma createBooking_populate:
  "createBooking db uid req now False =
     (case createBooking db uid req now True of
        (db', Inr b) \<Rightarrow> (db', Inl ServerError)
      | (db', Inl err) \<Rightarrow> (db', Inl err))"
  by (simp add: createBooking_def Let_def split: option.splits)

lemma createGuestBooking_populate:
  "createGuestBooking db req now False =
     (case createGuestBooking db req now True of
        (db', Inr b) \<Rightarrow> (db', Inl ServerError)
      | (db', Inl err) \<Rightarrow> (db', Inl err))"
  by (simp add: createGuestBooking_def Let_def split: option.splits prod.splits)

lemma createBooking_succeeds:
  assumes "passes_checks db req now"
    and "req_startDate req = Some s" "req_endDate req = Some e" "req_car req = Some i"
    and "find_conflicting (bookings db) i auth_blocking s e = []"
  shows "\<exists>b. createBooking db uid req now p =
        (db\<lparr>bookings := bookings db @ [b]\<rparr>, if p then Inr b else Inl ServerError) \<and>
     status b = Pending \<and> car b = i \<and> user b = uid \<and>
     startDate b = s \<and> endDate b = e"
proof -
  from assms(1-4) obtain c where c: "Car_findById (cars db) i = Some c"
    "isAvailable c" "js_ge0 (pricePerDay c)"
    and d: "now < s" "s < e"
    and l: "req_pickupLocation req \<noteq> []" "req_returnLocation req \<noteq> []"
    by (auto simp: passes_checks_def split: option.splits)
  have "js_ge0 (js_times (days_between s e) (pricePerDay c))"
    using days_between_ge1 [OF d(2)] c(3) by (intro js_times_nonneg) simp_all
  then have "\<exists>b. createBooking db uid req now True =
        (db\<lparr>bookings := bookings db @ [b]\<rparr>, Inr b) \<and>
     status b = Pending \<and> car b = i \<and> user b = uid \<and> startDate b = s \<and> endDate b = e"
    using c d l assms(2-5)
    by (simp add: createBooking_def Let_def Booking_create_def pre_validate_def new_document_def
        schema_valid_def)
  then obtain b where b: "createBooking db uid req now True =
        (db\<lparr>bookings := bookings db @ [b]\<rparr>, Inr b)"
    "status b = Pending \<and> car b = i \<and> user b = uid \<and> startDate b = s \<and> endDate b = e"
    by blast
  from b(1) have "createBooking db uid req now False =
        (db\<lparr>bookings := bookings db @ [b]\<rparr>, Inl ServerError)"
    by (simp add: createBooking_populate)
  with b show ?thesis
    by (cases p) auto
qed

lemma createGuestBooking_succeeds:
  assumes "passes_checks db req now"
    and "req_startDate req = Some s" "req_endDate req = Some e" "req_car req = Some i"
    and "find_conflicting (bookings db) i guest_blocking s e = []"
  shows "\<exists>b. createGuestBooking db req now p =
        (db\<lparr>users := fst (upsertGuest (users db) (req_guestInfo req)),
            bookings := bookings db @ [b]\<rparr>, if p then Inr b else Inl ServerError) \<and>
     status b = Pending \<and> car b = i \<and>
     user b = user_id (snd (upsertGuest (users db) (req_guestInfo req))) \<and>
     startDate b = s \<and> endDate b = e"
proof -
  from assms(1-4) obtain c where c: "Car_findById (cars db) i = Some c"
    "isAvailable c" "js_ge0 (pricePerDay c)"
    and d: "now < s" "s < e"
    and l: "req_pickupLocation req \<noteq> []" "req_returnLocation req \<noteq> []"
    by (auto simp: passes_checks_def split: option.splits)
  have "js_ge0 (js_times (days_between s e) (pricePerDay c))"
    using days_between_ge1 [OF d(2)] c(3) by (intro js_times_nonneg) simp_all
  then have "\<exists>b. createGuestBooking db req now True =
        (db\<lparr>users := fst (upsertGuest (users db) (req_guestInfo req)),
            bookings := bookings db @ [b]\<rparr>, Inr b) \<and>
     status b = Pending \<and> car b = i \<and>
     user b = user_id (snd (upsertGuest (users db) (req_guestInfo req))) \<and>
     startDate b = s \<and> endDate b = e"
    using c d l assms(2-5)
    by (simp add: createGuestBooking_def Let_def Booking_create_def pre_validate_def new_document_def
        schema_valid_def split: prod.splits)
  then obtain b where b: "createGuestBooking db req now True =
        (db\<lparr>users := fst (upsertGuest (users db) (req_guestInfo req)),
            bookings := bookings db @ [b]\<rparr>, Inr b)"
    "status b = Pending \<and> car b = i \<and>
     user b = user_id (snd (upsertGuest (users db) (req_guestInfo req))) \<and>
     startDate b = s \<and> endDate b = e"
    by blast
  from b(1) have "createGuestBooking db req now False =
        (db\<lparr>users := fst (upsertGuest (users db) (req_guestInfo req)),
            bookings := bookings db @ [b]\<rparr>, Inl ServerError)"
    by (simp add: createGuestBooking_populate)
  with b show ?thesis
    by (cases p) auto
qed

text \<open>The conflict query after an insert, and after a status update.\<close>

lemma conflict_after_append:
  assumes "car b = carId" "status b \<in> set sts" "startDate b \<le> endDate b"
  shows "find_conflicting (bs @ [b]) carId sts (startDate b) (endDate b) \<noteq> []"
  using assms by (simp add: find_conflicting_def)

lemma no_conflict_after_append:
  assumes "find_conflicting bs carId sts s e = []" "status b \<notin> set sts"
  shows "find_conflicting (bs @ [b]) carId sts s e = []"
  using assms by (simp add: find_conflicting_def)

lemma conflict_after_status:
  assumes "b \<in> set bs" "car b = carId" "st \<in> set sts" "startDate b \<le> endDate b"
  shows "find_conflicting (map (\<lambda>x. if booking_id x = booking_id b then x\<lparr>status := st\<rparr> else x) bs)
           carId sts (startDate b) (endDate b) \<noteq> []"
proof -
  let ?bs' = "map (\<lambda>x. if booking_id x = booking_id b then x\<lparr>status := st\<rparr> else x) bs"
  have "b\<lparr>status := st\<rparr> \<in> set ?bs'"
    using assms(1) by force
  moreover have "car (b\<lparr>status := st\<rparr>) = carId \<and> status (b\<lparr>status := st\<rparr>) \<in> set sts \<and>
      startDate (b\<lparr>status := st\<rparr>) \<le> endDate b \<and> startDate b \<le> endDate (b\<lparr>status := st\<rparr>)"
    using assms(2-4) by simp
  ultimately have "\<exists>x \<in> set ?bs'. car x = carId \<and> status x \<in> set sts \<and>
      startDate x \<le> endDate b \<and> startDate b \<le> endDate x"
    by blast
  then show ?thesis
    unfolding find_conflicting_def filter_empty_conv by blast
qed

text \<open>Fresh ids, and the guest identities of a store that satisfies \<open>users_ok\<close>.\<close>

lemma fresh_id_greater: "x \<in> set ids \<Longrightarrow> x < fresh_id ids"
proof -
  assume x: "x \<in> set ids"
  have "Max (set (0 # ids)) = fold max ids 0"
    by (rule Max.set_eq_fold)
  moreover have "x \<le> Max (set (0 # ids))"
    using x by (intro Max_ge) simp_all
  ultimately show ?thesis
    by (simp add: fresh_id_def)
qed

lemma fresh_id_notin: "fresh_id ids \<notin> set ids"
  using fresh_id_greater [of "fresh_id ids" ids] by blast

lemma filter_key_single:
  "distinct (map f xs) \<Longrightarrow> x \<in> set xs \<Longrightarrow> filter (\<lambda>y. f y = f x) xs = [x]"
proof (induction xs)
  case Nil
  then show ?case by simp
next
  case (Cons a xs)
  show ?case
  proof (cases "a = x")
    case True
    with Cons.prems(1) have "\<forall>y \<in> set xs. f y \<noteq> f x" by (auto simp: image_iff)
    then have "filter (\<lambda>y. f y = f x) xs = []" by (simp add: filter_empty_conv)
    with True show ?thesis by simp
  next
    case False
    with Cons.prems have "x \<in> set xs" "f a \<noteq> f x" by force+
    with Cons show ?thesis by simp
  qed
qed

lemma guests_with_single:
  assumes "users_ok us" "u \<in> set us" "isGuest u"
  shows "guests_with us (email u) = [u]"
proof -
  have "guests_with us (email u) = filter (\<lambda>y. email y = email u) (filter isGuest us)"
    by (simp add: guests_with_def conj_commute)
  also have "\<dots> = [u]"
    using assms by (intro filter_key_single) (simp_all add: users_ok_def)
  finally show ?thesis .
qed

lemma guest_ids_kept_refl: "guest_ids_kept us us"
  by (auto simp: guest_ids_kept_def)

lemma guest_ids_kept_trans:
  "guest_ids_kept us us' \<Longrightarrow> guest_ids_kept us' us'' \<Longrightarrow> guest_ids_kept us us''"
  unfolding guest_ids_kept_def by (metis)

lemma User_findGuest_None: "User_findGuest us e = None \<Longrightarrow> e \<notin> set (map email (filter isGuest us))"
  by (auto simp: User_findGuest_def find_None_iff)

lemma User_findGuest_Some: "User_findGuest us e = Some u \<Longrightarrow> u \<in> set us \<and> email u = e \<and> isGuest u"
  by (auto simp: User_findGuest_def find_Some_iff)

lemma User_save_ids: "map user_id (User_save us u) = map user_id us"
  by (induction us) (simp_all add: User_save_def)

lemma User_save_guest_emails:
  assumes "\<forall>x \<in> set us. user_id x = user_id u \<longrightarrow> x = u"
  shows "map email (filter isGuest (User_save us (u\<lparr>name := n, phone := p\<rparr>))) = map email (filter isGuest us)"
  using assms by (induction us) (auto simp: User_save_def)

lemma User_save_mem:
  "x \<in> set us \<Longrightarrow> (if user_id x = user_id u then u else x) \<in> set (User_save us u)"
  by (auto simp: User_save_def)

lemma upsertGuest_props:
  assumes ok: "users_ok us" and up: "upsertGuest us g = (us', u)"
  shows "users_ok us'" and "u \<in> set us'" and "isGuest u" and "email u = guest_email g"
    and "name u = guest_name g" and "phone u = guest_phone g" and "guest_ids_kept us us'"
proof -
  have all: "users_ok us' \<and> u \<in> set us' \<and> isGuest u \<and> email u = guest_email g \<and>
    name u = guest_name g \<and> phone u = guest_phone g \<and> guest_ids_kept us us'"
  proof (cases "User_findGuest us (guest_email g)")
    case None
    from up None have us': "us' = us @ [u]"
      and u: "u = \<lparr> user_id = fresh_id (map user_id us), name = guest_name g,
                   email = guest_email g, phone = guest_phone g, role = ''guest'', isGuest = True \<rparr>"
      by (auto simp: upsertGuest_def User_create_def Let_def)
    have "users_ok us'"
      using ok User_findGuest_None [OF None] fresh_id_notin [of "map user_id us"]
      by (simp add: users_ok_def us' u)
    moreover have "guest_ids_kept us us'"
      by (auto simp: guest_ids_kept_def us')
    ultimately show ?thesis
      by (simp add: us' u)
  next
    case (Some u0)
    from User_findGuest_Some [OF Some] have u0: "u0 \<in> set us" "email u0 = guest_email g" "isGuest u0"
      by simp_all
    from up Some have u: "u = u0\<lparr>name := guest_name g, phone := guest_phone g\<rparr>"
      and us': "us' = User_save us u"
      by (auto simp: upsertGuest_def Let_def)
    have uniq: "\<forall>x \<in> set us. user_id x = user_id u0 \<longrightarrow> x = u0"
      using ok u0(1) by (auto simp: users_ok_def distinct_map dest: inj_onD)
    have "users_ok us'"
      using ok User_save_guest_emails [OF uniq] by (simp add: users_ok_def us' u User_save_ids)
    moreover have "u \<in> set us'"
      using User_save_mem [OF u0(1), of u] by (simp add: us' u)
    moreover have "guest_ids_kept us us'"
      unfolding guest_ids_kept_def
    proof (intro ballI impI)
      fix x assume x: "x \<in> set us" "isGuest x"
      let ?y = "if user_id x = user_id u then u else x"
      have "?y \<in> set us'" using User_save_mem [OF x(1), of u] by (simp add: us')
      moreover have "isGuest ?y \<and> email ?y = email x \<and> user_id ?y = user_id x"
        using x uniq u u0 by auto
      ultimately show "\<exists>u1 \<in> set us'. isGuest u1 \<and> email u1 = email x \<and> user_id u1 = user_id x"
        by blast
    qed
    ultimately show ?thesis
      using u0 by (simp add: u)
  qed
  from all show "users_ok us'" and "u \<in> set us'" and "isGuest u" and "email u = guest_email g"
    and "name u = guest_name g" and "phone u = guest_phone g" and "guest_ids_kept us us'"
    by simp_all
qed

text \<open>One guest request, and a sequence of them: the user collection stays well-formed and
  keeps its guest identities; a booking that was made points to the identity of its email.\<close>

lemma createGuestBooking_users:
  "users (fst (createGuestBooking db req now p)) = users db \<or>
   users (fst (createGuestBooking db req now p)) = fst (upsertGuest (users db) (req_guestInfo req))"
  by (auto simp: createGuestBooking_def Let_def split: option.splits prod.splits)

lemma guest_step:
  assumes ok: "users_ok (users db)" and r: "createGuestBooking db req now p = (db1, r)"
  shows "users_ok (users db1)" and "guest_ids_kept (users db) (users db1)"
    and "r = Inr b \<Longrightarrow> \<exists>u \<in> set (users db1). isGuest u \<and> email u = guest_email (req_guestInfo req) \<and>
           user_id u = user b \<and> name u = guest_name (req_guestInfo req) \<and>
           phone u = guest_phone (req_guestInfo req)"
proof -
  obtain us' u where up: "upsertGuest (users db) (req_guestInfo req) = (us', u)"
    by (cases "upsertGuest (users db) (req_guestInfo req)")
  note p = upsertGuest_props [OF ok up]
  from createGuestBooking_users [of db req now p] r up
  have cases: "users db1 = users db \<or> users db1 = us'" by simp
  then show "users_ok (users db1)" using ok p(1) by auto
  from cases show "guest_ids_kept (users db) (users db1)"
    using p(7) guest_ids_kept_refl by auto
  assume "r = Inr b"
  with r have "createGuestBooking db req now p = (db1, Inr b)" by simp
  from createGuestBooking_Inr [OF this] up
  have "user b = user_id u" "users db1 = us'" by auto
  with p show "\<exists>u \<in> set (users db1). isGuest u \<and> email u = guest_email (req_guestInfo req) \<and>
           user_id u = user b \<and> name u = guest_name (req_guestInfo req) \<and>
           phone u = guest_phone (req_guestInfo req)"
    by auto
qed

lemma guest_run_length: "guest_run db calls = (db', rs) \<Longrightarrow> length rs = length calls"
  by (induction calls arbitrary: db db' rs) (auto split: prod.splits)

lemma guest_run_invariant:
  assumes "users_ok (users db)" and "guest_run db calls = (db', rs)"
  shows "users_ok (users db') \<and> guest_ids_kept (users db) (users db')"
  using assms
proof (induction calls arbitrary: db db' rs)
  case Nil
  then show ?case by (simp add: guest_ids_kept_refl)
next
  case (Cons c cs)
  obtain db1 r where s: "createGuestBooking db (fst c) (fst (snd c)) (snd (snd c)) = (db1, r)"
    by (cases "createGuestBooking db (fst c) (fst (snd c)) (snd (snd c))")
  obtain db2 rs' where t: "guest_run db1 cs = (db2, rs')"
    by (cases "guest_run db1 cs")
  from Cons.prems(2) s t have eq: "db' = db2" by simp
  note st = guest_step(1,2) [OF Cons.prems(1) s]
  from Cons.IH [OF st(1) t] st(2) eq show ?case
    by (auto intro: guest_ids_kept_trans)
qed

lemma guest_run_bookings:
  assumes "users_ok (users db)" and "guest_run db calls = (db', rs)"
    and "(c, Inr b) \<in> set (zip calls rs)"
  shows "\<exists>u. guests_with (users db') (guest_email (req_guestInfo (fst c))) = [u] \<and> user_id u = user b"
  using assms
proof (induction calls arbitrary: db db' rs)
  case Nil
  then show ?case by simp
next
  case (Cons c0 cs)
  obtain db1 r where s: "createGuestBooking db (fst c0) (fst (snd c0)) (snd (snd c0)) = (db1, r)"
    by (cases "createGuestBooking db (fst c0) (fst (snd c0)) (snd (snd c0))")
  obtain db2 rs' where t: "guest_run db1 cs = (db2, rs')"
    by (cases "guest_run db1 cs")
  from Cons.prems(2) s t have eq: "db' = db2" "rs = r # rs'" by simp_all
  note st = guest_step(1,2) [OF Cons.prems(1) s]
  from Cons.prems(3) eq have "c = c0 \<and> r = Inr b \<or> (c, Inr b) \<in> set (zip cs rs')" by auto
  then show ?case
  proof
    assume h: "c = c0 \<and> r = Inr b"
    from guest_step(3) [OF Cons.prems(1) s, of b] h obtain u where
      u: "u \<in> set (users db1)" "isGuest u" "email u = guest_email (req_guestInfo (fst c))" "user_id u = user b"
      by auto
    from guest_run_invariant [OF st(1) t] have inv: "users_ok (users db2)" "guest_ids_kept (users db1) (users db2)"
      by simp_all
    from inv(2) u(1,2) obtain u1 where u1: "u1 \<in> set (users db2)" "isGuest u1" "email u1 = email u"
      "user_id u1 = user_id u"
      unfolding guest_ids_kept_def by blast
    from guests_with_single [OF inv(1) u1(1,2)] u1 u eq show ?thesis by simp
  next
    assume "(c, Inr b) \<in> set (zip cs rs')"
    from Cons.IH [OF st(1) t this] eq show ?thesis by simp
  qed
qed

lemma guest_run_last:
  assumes "users_ok (users db)" and "guest_run db calls = (db', rs)"
    and "calls \<noteq> []" and "last rs = Inr b"
  shows "\<exists>u. guests_with (users db') (guest_email (req_guestInfo (fst (last calls)))) = [u] \<and>
     user_id u = user b \<and>
     name u = guest_name (req_guestInfo (fst (last calls))) \<and>
     phone u = guest_phone (req_guestInfo (fst (last calls)))"
  using assms
proof (induction calls arbitrary: db db' rs)
  case Nil
  then show ?case by simp
next
  case (Cons c0 cs)
  obtain db1 r where s: "createGuestBooking db (fst c0) (fst (snd c0)) (snd (snd c0)) = (db1, r)"
    by (cases "createGuestBooking db (fst c0) (fst (snd c0)) (snd (snd c0))")
  obtain db2 rs' where t: "guest_run db1 cs = (db2, rs')"
    by (cases "guest_run db1 cs")
  from Cons.prems(2) s t have eq: "db' = db2" "rs = r # rs'" by simp_all
  note st = guest_step(1,2) [OF Cons.prems(1) s]
  show ?case
  proof (cases "cs = []")
    case True
    with t have e2: "db2 = db1" "rs' = []" by simp_all
    with Cons.prems(4) eq have "r = Inr b" by simp
    from guest_step(3) [OF Cons.prems(1) s this] obtain u where
      u: "u \<in> set (users db1)" "isGuest u" "email u = guest_email (req_guestInfo (fst c0))"
        "user_id u = user b" "name u = guest_name (req_guestInfo (fst c0))"
        "phone u = guest_phone (req_guestInfo (fst c0))"
      by auto
    from guests_with_single [OF st(1) u(1,2)] u eq e2 True show ?thesis by simp
  next
    case False
    with guest_run_length [OF t] have "rs' \<noteq> []" by auto
    with Cons.prems(4) eq have "last rs' = Inr b" by simp
    from Cons.IH [OF st(1) t False this] eq False show ?thesis by simp
  qed
qed

lemma ex_guest_run:
  "guest_run ex_db ex_calls =
     (ex_db_after,
      [Inr (ex_guest_booking 1 ex_start ex_end (ex_guest ''Ann'' ''555'')),
       Inr ((ex_guest_booking 2 (ex_end + 86400000) (ex_end + 259200000) (ex_guest ''Ann B.'' ''777''))
                 \<lparr>totalDays := 2, totalAmount := Num 100\<rparr>)])"
  by (simp add: ex_defs route_defs days_between_div js_times_150 js_times_100)

text \<open>When the date checks answer: exactly when the start date has parsed and is not after
  the request time, or both dates have parsed and the end is not after the start.  A start
  date that has not parsed passes both checks.\<close>

lemma date_checks_answer:
  "(\<exists>err. snd (createBooking db uid req now p) = Inl err \<and> kind_of err = InvalidDateRange) \<longleftrightarrow>
     date_le (req_startDate req) (Some now) \<or> date_le (req_endDate req) (req_startDate req)"
  "(\<exists>err. snd (createGuestBooking db greq now p) = Inl err \<and> kind_of err = InvalidDateRange) \<longleftrightarrow>
     date_le (req_startDate greq) (Some now) \<or> date_le (req_endDate greq) (req_startDate greq)"
  by (auto simp: createBooking_def createGuestBooking_def Let_def
      split: option.splits prod.splits)

section \<open>The overlap test\<close>

text \<open>
  C1.  A stored reservation \<open>[s1, e1)\<close> is reported by the conflict query for the candidate
  range \<open>[s2, e2)\<close> exactly when it belongs to the car, has one of the queried statuses,
  and \<open>s1 \<le> e2\<close> and \<open>e1 \<ge> s2\<close>.  In particular two well-formed ranges that touch at
  a boundary (\<open>e1 = s2\<close> or \<open>e2 = s1\<close>) conflict.
\<close>

theorem overlap_test:
  "(b \<in> set (find_conflicting bs carId statuses s2 e2) \<longleftrightarrow>
      b \<in> set bs \<and> car b = carId \<and> status b \<in> set statuses \<and>
      startDate b \<le> e2 \<and> endDate b \<ge> s2) \<and>
   (b \<in> set bs \<and> car b = carId \<and> status b \<in> set statuses \<and>
      startDate b \<le> endDate b \<and> s2 \<le> e2 \<and> (endDate b = s2 \<or> e2 = startDate b)
      \<longrightarrow> b \<in> set (find_conflicting bs carId statuses s2 e2))"
  by (auto simp: find_conflicting_def)

theorem overlap_test_witness:
  "ex_booking Confirmed \<in> set (find_conflicting [ex_booking Confirmed] 1 auth_blocking ex_end (ex_end + 86400000)) \<and>
   ex_booking Confirmed \<in> set (find_conflicting [ex_booking Confirmed] 1 auth_blocking (ex_start - 86400000) ex_start) \<and>
   ex_booking Confirmed \<notin> set (find_conflicting [ex_booking Confirmed] 1 auth_blocking (ex_end + 1) (ex_end + 86400000))"
  using overlap_test [of "ex_booking Confirmed" "[ex_booking Confirmed]" 1 auth_blocking ex_end "ex_end + 86400000"]
    overlap_test [of "ex_booking Confirmed" "[ex_booking Confirmed]" 1 auth_blocking "ex_start - 86400000" ex_start]
    overlap_test [of "ex_booking Confirmed" "[ex_booking Confirmed]" 1 auth_blocking "ex_end + 1" "ex_end + 86400000"]
  by (simp add: ex_defs auth_blocking_def)

section \<open>Blocking statuses\<close>

text \<open>
  C2.  The authenticated route answers "not available for the selected dates" exactly when
  the car id and the dates have been read, the dates are valid, the car exists and is
  switched on, and some reservation of the car in status confirmed or active overlaps the
  range; the guest route does so exactly when such a reservation is in status pending,
  confirmed or active.  The blocking sets are thus \<open>{confirmed, active}\<close> and
  \<open>{pending, confirmed, active}\<close>, and a cancelled or completed reservation blocks on
  neither route.
\<close>

theorem blocking_statuses:
  "set auth_blocking = {Confirmed, Active} \<and>
   set guest_blocking = {Pending, Confirmed, Active} \<and>
   (snd (createBooking db uid req now p) = Inl DatesNotAvailable \<longleftrightarrow>
      (\<exists>s e i. req_startDate req = Some s \<and> req_endDate req = Some e \<and> req_car req = Some i \<and>
         now < s \<and> s < e \<and>
         (\<exists>c. Car_findById (cars db) i = Some c \<and> isAvailable c) \<and>
         (\<exists>b \<in> set (bookings db). car b = i \<and> status b \<in> {Confirmed, Active} \<and>
            startDate b \<le> e \<and> endDate b \<ge> s))) \<and>
   (snd (createGuestBooking db greq now p') = Inl DatesNotAvailable \<longleftrightarrow>
      (\<exists>s e i. req_startDate greq = Some s \<and> req_endDate greq = Some e \<and> req_car greq = Some i \<and>
         now < s \<and> s < e \<and>
         (\<exists>c. Car_findById (cars db) i = Some c \<and> isAvailable c) \<and>
         (\<exists>b \<in> set (bookings db). car b = i \<and> status b \<in> {Pending, Confirmed, Active} \<and>
            startDate b \<le> e \<and> endDate b \<ge> s)))"
proof (intro conjI)
  show "set auth_blocking = {Confirmed, Active}"
    by (auto simp: auth_blocking_def)
  show "set guest_blocking = {Pending, Confirmed, Active}"
    by (auto simp: guest_blocking_def)
  show "snd (createBooking db uid req now p) = Inl DatesNotAvailable \<longleftrightarrow>
      (\<exists>s e i. req_startDate req = Some s \<and> req_endDate req = Some e \<and> req_car req = Some i \<and>
         now < s \<and> s < e \<and>
         (\<exists>c. Car_findById (cars db) i = Some c \<and> isAvailable c) \<and>
         (\<exists>b \<in> set (bookings db). car b = i \<and> status b \<in> {Confirmed, Active} \<and>
            startDate b \<le> e \<and> endDate b \<ge> s))"
    by (cases "req_startDate req"; cases "req_endDate req"; cases "req_car req")
      (auto simp: createBooking_def Let_def find_conflicting_def auth_blocking_def
        filter_empty_conv split: option.splits)
  show "snd (createGuestBooking db greq now p') = Inl DatesNotAvailable \<longleftrightarrow>
      (\<exists>s e i. req_startDate greq = Some s \<and> req_endDate greq = Some e \<and> req_car greq = Some i \<and>
         now < s \<and> s < e \<and>
         (\<exists>c. Car_findById (cars db) i = Some c \<and> isAvailable c) \<and>
         (\<exists>b \<in> set (bookings db). car b = i \<and> status b \<in> {Pending, Confirmed, Active} \<and>
            startDate b \<le> e \<and> endDate b \<ge> s))"
    by (cases "req_startDate greq"; cases "req_endDate greq"; cases "req_car greq")
      (auto simp: createGuestBooking_def Let_def find_conflicting_def guest_blocking_def
        filter_empty_conv split: option.splits prod.splits)
qed

theorem blocking_statuses_witness:
  "snd (createBooking (ex_db_with Cancelled) 8 (ex_req 1 ex_start ex_end) ex_now True) \<noteq> Inl DatesNotAvailable \<and>
   snd (createGuestBooking (ex_db_with Completed) (ex_greq 1 ex_start ex_end (ex_guest ''Ann'' ''555'')) ex_now True) \<noteq> Inl DatesNotAvailable \<and>
   snd (createBooking (ex_db_with Pending) 8 (ex_req 1 ex_start ex_end) ex_now True) \<noteq> Inl DatesNotAvailable \<and>
   snd (createGuestBooking (ex_db_with Pending) (ex_greq 1 ex_start ex_end (ex_guest ''Ann'' ''555'')) ex_now True) = Inl DatesNotAvailable \<and>
   snd (createBooking (ex_db_with Active) 8 (ex_req 1 ex_start ex_end) ex_now True) = Inl DatesNotAvailable"
  using blocking_statuses [of "ex_db_with Cancelled" 8 "ex_req 1 ex_start ex_end" ex_now True
          "ex_greq 1 ex_start ex_end (ex_guest ''Ann'' ''555'')" True]
    blocking_statuses [of "ex_db_with Completed" 8 "ex_req 1 ex_start ex_end" ex_now True
          "ex_greq 1 ex_start ex_end (ex_guest ''Ann'' ''555'')" True]
    blocking_statuses [of "ex_db_with Pending" 8 "ex_req 1 ex_start ex_end" ex_now True
          "ex_greq 1 ex_start ex_end (ex_guest ''Ann'' ''555'')" True]
    blocking_statuses [of "ex_db_with Active" 8 "ex_req 1 ex_start ex_end" ex_now True
          "ex_greq 1 ex_start ex_end (ex_guest ''Ann'' ''555'')" True]
  by (simp add: ex_defs Car_findById_def)

section \<open>Derived quantities\<close>

text \<open>
  C4 as stated fails for the amount: the product is a product of doubles.  Car 5 costs
  0.1 per day; the sample request for three days stores the amount 0.30000000000000004,
  which is not three times the price.
\<close>

theorem totals_computed_counterexample:
  "pricePerDay ex_car_dime = Num (3602879701896397 / 36028797018963968) \<and>
   createBooking ex_db 8 (ex_req 5 ex_start ex_end) ex_now True =
     (ex_db\<lparr>bookings := [ex_booking_dime]\<rparr>, Inr ex_booking_dime) \<and>
   totalDays ex_booking_dime = 3 \<and>
   totalAmount ex_booking_dime = Num (5404319552844596 / 18014398509481984) \<and>
   totalAmount ex_booking_dime \<noteq> Num (3 * (3602879701896397 / 36028797018963968))"
  using ex_createBooking_dime by (simp add: ex_defs)

text \<open>
  C4, amended.  A reservation created by either route has \<open>startDate < endDate\<close>, its
  stored \<open>totalDays\<close> is the ceiling of the range's length in days (one day is 86400000
  ms) and is at least 1, its stored \<open>totalAmount\<close> is the double product of \<open>totalDays\<close>
  and the car's price per day, that is the exact product rounded to the nearest double,
  and it is the document appended to the reservation store.  The sample request
  (2099-01-10 to 2099-01-13, 50 per day) gives 3 days and 150.
\<close>

theorem totals_computed:
  "(createBooking db uid req now p = (db', Inr b) \<longrightarrow>
      (\<exists>s e i c. req_startDate req = Some s \<and> req_endDate req = Some e \<and>
         req_car req = Some i \<and> Car_findById (cars db) i = Some c \<and>
         s < e \<and>
         totalDays b = \<lceil>(of_int (e - s) :: rat) / 86400000\<rceil> \<and>
         1 \<le> totalDays b \<and>
         totalAmount b = js_times (totalDays b) (pricePerDay c) \<and>
         (\<forall>x. pricePerDay c = Num x \<longrightarrow>
            totalAmount b = round_double (of_int (totalDays b) * x))) \<and>
      bookings db' = bookings db @ [b]) \<and>
   (createGuestBooking db greq now p' = (db'', Inr b') \<longrightarrow>
      (\<exists>s e i c. req_startDate greq = Some s \<and> req_endDate greq = Some e \<and>
         req_car greq = Some i \<and> Car_findById (cars db) i = Some c \<and>
         s < e \<and>
         totalDays b' = \<lceil>(of_int (e - s) :: rat) / 86400000\<rceil> \<and>
         1 \<le> totalDays b' \<and>
         totalAmount b' = js_times (totalDays b') (pricePerDay c) \<and>
         (\<forall>x. pricePerDay c = Num x \<longrightarrow>
            totalAmount b' = round_double (of_int (totalDays b') * x))) \<and>
      bookings db'' = bookings db @ [b'])"
proof (intro conjI impI)
  assume a: "createBooking db uid req now p = (db', Inr b)"
  from createBooking_Inr [OF a] obtain s e i c where
    r: "req_startDate req = Some s" "req_endDate req = Some e" "req_car req = Some i"
    and c: "Car_findById (cars db) i = Some c"
    and lt: "s < e"
    and td: "totalDays b = days_between s e"
    and ta: "totalAmount b = js_times (days_between s e) (pricePerDay c)"
    and db': "db' = db\<lparr>bookings := bookings db @ [b]\<rparr>"
    by blast
  have "totalDays b = \<lceil>(of_int (e - s) :: rat) / 86400000\<rceil>"
    using td by (simp add: days_between_def ms_per_day_def)
  moreover have "1 \<le> totalDays b"
    using td days_between_ge1 [OF lt] by simp
  moreover have "totalAmount b = js_times (totalDays b) (pricePerDay c)"
    using td ta by simp
  moreover from this have "\<forall>x. pricePerDay c = Num x \<longrightarrow>
      totalAmount b = round_double (of_int (totalDays b) * x)"
    by (simp add: js_times.simps)
  ultimately show "\<exists>s e i c. req_startDate req = Some s \<and> req_endDate req = Some e \<and>
         req_car req = Some i \<and> Car_findById (cars db) i = Some c \<and>
         s < e \<and>
         totalDays b = \<lceil>(of_int (e - s) :: rat) / 86400000\<rceil> \<and>
         1 \<le> totalDays b \<and>
         totalAmount b = js_times (totalDays b) (pricePerDay c) \<and>
         (\<forall>x. pricePerDay c = Num x \<longrightarrow>
            totalAmount b = round_double (of_int (totalDays b) * x))"
    using r c lt by blast
  show "bookings db' = bookings db @ [b]"
    using db' by simp
next
  assume a: "createGuestBooking db greq now p' = (db'', Inr b')"
  from createGuestBooking_Inr [OF a] obtain s e i c where
    r: "req_startDate greq = Some s" "req_endDate greq = Some e" "req_car greq = Some i"
    and c: "Car_findById (cars db) i = Some c"
    and lt: "s < e"
    and td: "totalDays b' = days_between s e"
    and ta: "totalAmount b' = js_times (days_between s e) (pricePerDay c)"
    and db': "db'' = db\<lparr>users := fst (upsertGuest (users db) (req_guestInfo greq)),
              bookings := bookings db @ [b']\<rparr>"
    by blast
  have "totalDays b' = \<lceil>(of_int (e - s) :: rat) / 86400000\<rceil>"
    using td by (simp add: days_between_def ms_per_day_def)
  moreover have "1 \<le> totalDays b'"
    using td days_between_ge1 [OF lt] by simp
  moreover have "totalAmount b' = js_times (totalDays b') (pricePerDay c)"
    using td ta by simp
  moreover from this have "\<forall>x. pricePerDay c = Num x \<longrightarrow>
      totalAmount b' = round_double (of_int (totalDays b') * x)"
    by (simp add: js_times.simps)
  ultimately show "\<exists>s e i c. req_startDate greq = Some s \<and> req_endDate greq = Some e \<and>
         req_car greq = Some i \<and> Car_findById (cars db) i = Some c \<and>
         s < e \<and>
         totalDays b' = \<lceil>(of_int (e - s) :: rat) / 86400000\<rceil> \<and>
         1 \<le> totalDays b' \<and>
         totalAmount b' = js_times (totalDays b') (pricePerDay c) \<and>
         (\<forall>x. pricePerDay c = Num x \<longrightarrow>
            totalAmount b' = round_double (of_int (totalDays b') * x))"
    using r c lt by blast
  show "bookings db'' = bookings db @ [b']"
    using db' by simp
qed

theorem totals_computed_witness:
  "ex_start = 47126 * ms_per_day \<and> ex_end = 47129 * ms_per_day \<and>
   pricePerDay ex_car = Num 50 \<and>
   createBooking ex_db 8 (ex_req 1 ex_start ex_end) ex_now True =
     (ex_db\<lparr>bookings := [(ex_booking Pending)\<lparr>user := 8\<rparr>]\<rparr>, Inr ((ex_booking Pending)\<lparr>user := 8\<rparr>)) \<and>
   totalDays ((ex_booking Pending)\<lparr>user := 8\<rparr>) = 3 \<and>
   totalAmount ((ex_booking Pending)\<lparr>user := 8\<rparr>) = Num 150 \<and>
   createGuestBooking ex_db (ex_greq 1 ex_start ex_end (ex_guest ''Ann'' ''555'')) ex_now True =
     (ex_db\<lparr>users := [ex_user ''Ann'' ''555''],
            bookings := [ex_guest_booking 1 ex_start ex_end (ex_guest ''Ann'' ''555'')]\<rparr>,
      Inr (ex_guest_booking 1 ex_start ex_end (ex_guest ''Ann'' ''555''))) \<and>
   totalDays (ex_guest_booking 1 ex_start ex_end (ex_guest ''Ann'' ''555'')) = 3 \<and>
   totalAmount (ex_guest_booking 1 ex_start ex_end (ex_guest ''Ann'' ''555'')) = Num 150 \<and>
   js_times 3 (Num 50) = Num 150"
  using totals_computed [of ex_db 8 "ex_req 1 ex_start ex_end" ex_now True
      "ex_db\<lparr>bookings := [(ex_booking Pending)\<lparr>user := 8\<rparr>]\<rparr>" "(ex_booking Pending)\<lparr>user := 8\<rparr>"
      "ex_greq 1 ex_start ex_end (ex_guest ''Ann'' ''555'')" True
      "ex_db\<lparr>users := [ex_user ''Ann'' ''555''],
            bookings := [ex_guest_booking 1 ex_start ex_end (ex_guest ''Ann'' ''555'')]\<rparr>"
      "ex_guest_booking 1 ex_start ex_end (ex_guest ''Ann'' ''555'')"]
    ex_createBooking ex_createGuestBooking js_times_150
  by (simp add: ex_defs Car_findById_def ms_per_day_def)

section \<open>Date validation\<close>

text \<open>
  C5 against the code.  A start date that the field validator lets through and
  \<open>new Date\<close> does not parse (the week date 2099-W01-1) is not strictly after the
  request time, yet both date checks let it pass: the comparisons with the Invalid Date
  are false.  The handlers go on to the car lookup and to the conflict query, which
  rejects, and answer with a server error (or "Car not found" for an unknown car) instead
  of \<open>InvalidDateRange\<close>.  The store is unchanged.
\<close>

theorem date_validation_invalid_date:
  "\<not> date_le None (Some ex_now) \<and> \<not> date_le (Some ex_end) None \<and>
   createBooking ex_db 8 ((ex_req 1 ex_start ex_end)\<lparr>req_startDate := None\<rparr>) ex_now True =
     (ex_db, Inl ServerError) \<and>
   createGuestBooking ex_db
     ((ex_greq 1 ex_start ex_end (ex_guest ''Ann'' ''555''))\<lparr>req_startDate := None\<rparr>) ex_now True =
     (ex_db, Inl ServerError) \<and>
   createBooking ex_db 8 ((ex_req 4 ex_start ex_end)\<lparr>req_startDate := None\<rparr>) ex_now True =
     (ex_db, Inl CarNotFound) \<and>
   kind_of ServerError = InfrastructureError \<and> kind_of CarNotFound = NotFound"
  by (simp add: ex_defs createBooking_def createGuestBooking_def Car_findById_def)

section \<open>The availability check\<close>

text \<open>
  C6.  For an existing car, \<open>GET /api/cars/:id/availability\<close> answers with
  \<open>available\<close> true exactly when no conflict is listed and the car's \<open>isAvailable\<close>
  flag is set, and lists, in store order, the start and end dates of exactly the
  reservations of the car in a blocking status (confirmed or active at this call site) that
  overlap the candidate range.
\<close>

theorem availability_result:
  "Car_findById (cars db) carId = Some c \<longrightarrow>
     (\<exists>r. checkAvailability db carId startD endD = Inr r \<and>
        (available r \<longleftrightarrow> conflictingDates r = [] \<and> isAvailable c) \<and>
        conflictingDates r =
          map (\<lambda>b. (startDate b, endDate b))
            (filter (\<lambda>b. car b = carId \<and> status b \<in> {Confirmed, Active} \<and>
                          startDate b \<le> endD \<and> endDate b \<ge> startD) (bookings db)))"
  by (simp add: checkAvailability_def find_conflicting_def Let_def)

theorem availability_result_witness:
  "checkAvailability (ex_db_with Cancelled) 1 ex_start ex_end = Inr \<lparr> available = True, conflictingDates = [] \<rparr> \<and>
   checkAvailability (ex_db_with Pending) 1 ex_start ex_end = Inr \<lparr> available = True, conflictingDates = [] \<rparr> \<and>
   checkAvailability (ex_db_with Confirmed) 1 ex_end (ex_end + 1) =
      Inr \<lparr> available = False, conflictingDates = [(ex_start, ex_end)] \<rparr> \<and>
   checkAvailability (ex_db_with Confirmed) 2 ex_start ex_end = Inr \<lparr> available = False, conflictingDates = [] \<rparr>"
  using availability_result [of "ex_db_with Cancelled" 1 ex_car ex_start ex_end]
    availability_result [of "ex_db_with Pending" 1 ex_car ex_start ex_end]
    availability_result [of "ex_db_with Confirmed" 1 ex_car ex_end "ex_end + 1"]
    availability_result [of "ex_db_with Confirmed" 2 ex_car_off ex_start ex_end]
  by (simp add: ex_defs Car_findById_def checkAvailability_def find_conflicting_def)

section \<open>Status updates\<close>

text \<open>
  C8 as stated fails for an id that is no object id: the route does not validate
  \<open>req.params.id\<close>, the update call rejects with a cast error, and the answer is the
  server error of the \<open>catch\<close> block, not "Booking not found", although no reservation
  has that id.
\<close>

theorem setStatus_overwrites_counterexample:
  "updateBookingStatus (ex_db_with Completed) None Confirmed =
     (ex_db_with Completed, Inl ServerError) \<and>
   kind_of ServerError \<noteq> NotFound \<and> http_status ServerError = 500"
  by (simp add: updateBookingStatus_def Booking_findByIdAndUpdate_def)

text \<open>
  C8, amended.  \<open>PUT /api/admin/bookings/:id/status\<close> with one of the five statuses: when
  the id is an object id that no reservation has, the answer is "Booking not found" (kind
  \<open>NotFound\<close>) and the store is unchanged; when a reservation has it, the call succeeds
  whatever the previous status was, returns the reservation with the requested status, and
  the stored reservation with that id then has exactly that status; when the id is no
  object id, the answer is a server error and the store is unchanged.
\<close>

theorem setStatus_overwrites:
  "(Booking_findById (bookings db) i = None \<longrightarrow>
      updateBookingStatus db (Some i) s = (db, Inl BookingNotFound) \<and>
      kind_of BookingNotFound = NotFound) \<and>
   (\<forall>b. Booking_findById (bookings db) i = Some b \<longrightarrow>
      (\<exists>db'. updateBookingStatus db (Some i) s = (db', Inr (b\<lparr>status := s\<rparr>)) \<and>
         Booking_findById (bookings db') i = Some (b\<lparr>status := s\<rparr>) \<and>
         status (b\<lparr>status := s\<rparr>) = s)) \<and>
   updateBookingStatus db None s = (db, Inl ServerError)"
  by (auto simp: updateBookingStatus_def Booking_findByIdAndUpdate_def Booking_findById_def
      find_map_update)

theorem setStatus_overwrites_witness:
  "updateBookingStatus (ex_db_with Completed) (Some 5) Confirmed = (ex_db_with Completed, Inl BookingNotFound) \<and>
   updateBookingStatus (ex_db_with Completed) (Some 1) Pending = (ex_db_with Pending, Inr (ex_booking Pending)) \<and>
   updateBookingStatus (ex_db_with Cancelled) (Some 1) Active = (ex_db_with Active, Inr (ex_booking Active)) \<and>
   Booking_findById (bookings (ex_db_with Active)) 1 = Some (ex_booking Active) \<and>
   updateBookingStatus (ex_db_with Cancelled) None Active = (ex_db_with Cancelled, Inl ServerError)"
  using setStatus_overwrites [of "ex_db_with Completed" 5 Confirmed]
    setStatus_overwrites [of "ex_db_with Completed" 1 Pending]
    setStatus_overwrites [of "ex_db_with Cancelled" 1 Active]
  by (simp add: ex_defs updateBookingStatus_def Booking_findByIdAndUpdate_def Booking_findById_def)

section \<open>Failed creations\<close>

text \<open>
  C9 as stated fails when the \<open>populate\<close> that follows the insert rejects: the call is
  answered with a server error, and the reservation it has inserted stays in the store.
  The code has no rollback.
\<close>

theorem create_all_or_nothing_counterexample:
  "createBooking ex_db 8 (ex_req 1 ex_start ex_end) ex_now False =
     (ex_db\<lparr>bookings := [(ex_booking Pending)\<lparr>user := 8\<rparr>]\<rparr>, Inl ServerError) \<and>
   createGuestBooking ex_db (ex_greq 1 ex_start ex_end (ex_guest ''Ann'' ''555'')) ex_now False =
     (ex_db\<lparr>users := [ex_user ''Ann'' ''555''],
            bookings := [ex_guest_booking 1 ex_start ex_end (ex_guest ''Ann'' ''555'')]\<rparr>,
      Inl ServerError) \<and>
   bookings (ex_db\<lparr>bookings := [(ex_booking Pending)\<lparr>user := 8\<rparr>]\<rparr>) \<noteq> bookings ex_db"
  using ex_createBooking ex_createGuestBooking
  by (simp add: createBooking_populate createGuestBooking_populate ex_db_def)

text \<open>
  C9, amended.  Whenever either booking route answers with an error and the reservation
  store is not what it was before the call, the error is the server error of a
  \<open>populate\<close> that rejected, and the same call would have succeeded with that store had
  the \<open>populate\<close> returned.  So an answer of kind \<open>InvalidDateRange\<close>, \<open>NotFound\<close>,
  \<open>Unavailable\<close> or \<open>Conflict\<close>, a cast error and a document that \<open>Booking.create\<close>
  rejects all leave the reservation store untouched, and so does every error of a call
  whose \<open>populate\<close> returns.  (On the guest route the guest identity may have been
  written by then, as the sample with car 3 shows.)
\<close>

theorem create_all_or_nothing:
  "(\<forall>err. snd (createBooking db uid req now p) = Inl err \<longrightarrow>
       bookings (fst (createBooking db uid req now p)) = bookings db \<or>
       (\<not> p \<and> err = ServerError \<and>
        (\<exists>b. createBooking db uid req now True = (fst (createBooking db uid req now p), Inr b)))) \<and>
   (\<forall>err. snd (createGuestBooking db greq now p') = Inl err \<longrightarrow>
       bookings (fst (createGuestBooking db greq now p')) = bookings db \<or>
       (\<not> p' \<and> err = ServerError \<and>
        (\<exists>b. createGuestBooking db greq now True = (fst (createGuestBooking db greq now p'), Inr b)))) \<and>
   (\<forall>err. snd (createBooking db uid req now p) = Inl err \<and> (p \<or> kind_of err \<noteq> InfrastructureError) \<longrightarrow>
       bookings (fst (createBooking db uid req now p)) = bookings db) \<and>
   (\<forall>err. snd (createGuestBooking db greq now p') = Inl err \<and> (p' \<or> kind_of err \<noteq> InfrastructureError) \<longrightarrow>
       bookings (fst (createGuestBooking db greq now p')) = bookings db)"
proof -
  have a: "bookings (fst (createBooking db uid req now True)) = bookings db"
    if "snd (createBooking db uid req now True) = Inl err" for err
    using that by (auto simp: createBooking_def Let_def split: option.splits if_splits)
  have g: "bookings (fst (createGuestBooking db greq now True)) = bookings db"
    if "snd (createGuestBooking db greq now True) = Inl err" for err
    using that
    by (auto simp: createGuestBooking_def Let_def split: option.splits if_splits prod.splits)
  have a1: "bookings (fst (createBooking db uid req now p)) = bookings db \<or>
       (\<not> p \<and> err = ServerError \<and>
        (\<exists>b. createBooking db uid req now True = (fst (createBooking db uid req now p), Inr b)))"
    if h: "snd (createBooking db uid req now p) = Inl err" for err
  proof (cases p)
    case True
    with h a show ?thesis by simp
  next
    case False
    obtain d r where t: "createBooking db uid req now True = (d, r)"
      by (cases "createBooking db uid req now True")
    show ?thesis
    proof (cases r)
      case (Inl x)
      with t a [of x] False show ?thesis by (simp add: createBooking_populate)
    next
      case (Inr b)
      with t h False show ?thesis by (simp add: createBooking_populate)
    qed
  qed
  have g1: "bookings (fst (createGuestBooking db greq now p')) = bookings db \<or>
       (\<not> p' \<and> err = ServerError \<and>
        (\<exists>b. createGuestBooking db greq now True = (fst (createGuestBooking db greq now p'), Inr b)))"
    if h: "snd (createGuestBooking db greq now p') = Inl err" for err
  proof (cases p')
    case True
    with h g show ?thesis by simp
  next
    case False
    obtain d r where t: "createGuestBooking db greq now True = (d, r)"
      by (cases "createGuestBooking db greq now True")
    show ?thesis
    proof (cases r)
      case (Inl x)
      with t g [of x] False show ?thesis by (simp add: createGuestBooking_populate)
    next
      case (Inr b)
      with t h False show ?thesis by (simp add: createGuestBooking_populate)
    qed
  qed
  from a1 g1 show ?thesis by fastforce
qed

theorem create_all_or_nothing_witness:
  "createBooking ex_db 8 (ex_req 3 ex_start ex_end) ex_now True = (ex_db, Inl ServerError) \<and>
   createGuestBooking ex_db (ex_greq 3 ex_start ex_end (ex_guest ''Ann'' ''555'')) ex_now True =
      (ex_db\<lparr>users := [ex_user ''Ann'' ''555'']\<rparr>, Inl ServerError) \<and>
   bookings (ex_db\<lparr>users := [ex_user ''Ann'' ''555'']\<rparr>) = bookings ex_db \<and>
   createBooking (ex_db_with Active) 8 (ex_req 1 ex_start ex_end) ex_now False = (ex_db_with Active, Inl DatesNotAvailable) \<and>
   createGuestBooking (ex_db_with Pending) (ex_greq 1 ex_start ex_end (ex_guest ''Ann'' ''555'')) ex_now False =
      (ex_db_with Pending, Inl DatesNotAvailable) \<and>
   createBooking ex_db 8 (ex_req 2 ex_start ex_end) ex_now False = (ex_db, Inl CarNotAvailable) \<and>
   createBooking ex_db 8 (ex_req 4 ex_start ex_end) ex_now False = (ex_db, Inl CarNotFound) \<and>
   createBooking ex_db 8 (ex_req 1 ex_end ex_start) ex_now False = (ex_db, Inl EndNotAfterStart) \<and>
   createBooking ex_db 8 ((ex_req 1 ex_start ex_end)\<lparr>req_car := None\<rparr>) ex_now False = (ex_db, Inl ServerError)"
  using create_all_or_nothing [of ex_db 8 "ex_req 3 ex_start ex_end" ex_now True
      "ex_greq 3 ex_start ex_end (ex_guest ''Ann'' ''555'')" True]
    create_all_or_nothing [of "ex_db_with Active" 8 "ex_req 1 ex_start ex_end" ex_now False
      "ex_greq 1 ex_start ex_end (ex_guest ''Ann'' ''555'')" False]
  by (simp add: ex_defs route_defs days_between_div js_times_neg)

section \<open>Order of the checks\<close>



section \<open>Two bookings in a row\<close>

text \<open>
  C3 as stated fails on the authenticated route: the first reservation is stored in status
  pending, which that route does not treat as blocking, so the second call succeeds as well.
\<close>

theorem sequential_bookings_counterexample:
  "createBooking ex_db 8 (ex_req 1 ex_start ex_end) ex_now True =
     (ex_db\<lparr>bookings := [(ex_booking Pending)\<lparr>user := 8\<rparr>]\<rparr>, Inr ((ex_booking Pending)\<lparr>user := 8\<rparr>)) \<and>
   createBooking (ex_db\<lparr>bookings := [(ex_booking Pending)\<lparr>user := 8\<rparr>]\<rparr>) 9 (ex_req 1 ex_start ex_end) (ex_now + 1) True =
     (ex_db\<lparr>bookings := [(ex_booking Pending)\<lparr>user := 8\<rparr>, (ex_booking Pending)\<lparr>booking_id := 2, user := 9\<rparr>]\<rparr>,
      Inr ((ex_booking Pending)\<lparr>booking_id := 2, user := 9\<rparr>)) \<and>
   snd (createBooking (ex_db\<lparr>bookings := [(ex_booking Pending)\<lparr>user := 8\<rparr>]\<rparr>) 9 (ex_req 1 ex_start ex_end) (ex_now + 1) True)
     \<noteq> Inl DatesNotAvailable"
  by (simp add: ex_defs route_defs days_between_div js_times_150)

text \<open>
  C3, amended.  Take a request that passes the checks of its route on a car that has no
  blocking reservation over the range, and repeat it while its start date is still in the
  future.  On the guest route the first call succeeds with a reservation in status pending
  and the second answers \<open>Conflict\<close>, leaving the store as the first call left it.  On the
  authenticated route the first call succeeds with a reservation in status pending, and the
  second call succeeds too, again in status pending; it answers \<open>Conflict\<close> once the first
  reservation has been set to confirmed or active.  (A call that succeeds is one whose
  \<open>populate\<close> returns; the \<open>Conflict\<close> answers do not depend on it.)
\<close>

theorem sequential_bookings:
  "(passes_checks db greq now1 \<and>
    req_startDate greq = Some s \<and> req_endDate greq = Some e \<and> req_car greq = Some i \<and>
    now2 < s \<and> find_conflicting (bookings db) i guest_blocking s e = []
    \<longrightarrow>
      (\<exists>db1 b1. createGuestBooking db greq now1 True = (db1, Inr b1) \<and> status b1 = Pending \<and>
          createGuestBooking db1 greq now2 p2 = (db1, Inl DatesNotAvailable))) \<and>
   (passes_checks db req now1 \<and>
    req_startDate req = Some s' \<and> req_endDate req = Some e' \<and> req_car req = Some i' \<and>
    now2 < s' \<and> find_conflicting (bookings db) i' auth_blocking s' e' = []
    \<longrightarrow>
      (\<exists>db1 b1. createBooking db uid req now1 True = (db1, Inr b1) \<and> status b1 = Pending \<and>
          (\<exists>db2 b2. createBooking db1 uid2 req now2 True = (db2, Inr b2) \<and> status b2 = Pending) \<and>
          (\<forall>st \<in> {Confirmed, Active}.
             snd (createBooking (fst (updateBookingStatus db1 (Some (booking_id b1)) st)) uid2 req now2 p2)
               = Inl DatesNotAvailable)))"
proof (intro conjI impI)
  assume a: "passes_checks db greq now1 \<and>
    req_startDate greq = Some s \<and> req_endDate greq = Some e \<and> req_car greq = Some i \<and>
    now2 < s \<and> find_conflicting (bookings db) i guest_blocking s e = []"
  then have pc: "passes_checks db greq now1" and n2: "now2 < s"
    and r: "req_startDate greq = Some s" "req_endDate greq = Some e" "req_car greq = Some i"
    and nc: "find_conflicting (bookings db) i guest_blocking s e = []"
    by simp_all
  define db1 where "db1 = (\<lambda>b. db\<lparr>users := fst (upsertGuest (users db) (req_guestInfo greq)),
            bookings := bookings db @ [b]\<rparr>)"
  from createGuestBooking_succeeds [OF pc r nc, of True] obtain b1 where
    r1: "createGuestBooking db greq now1 True = (db1 b1, Inr b1)"
    and b1: "status b1 = Pending" "car b1 = i" "startDate b1 = s" "endDate b1 = e"
    unfolding db1_def by auto
  from pc r obtain c where c: "Car_findById (cars db) i = Some c" "isAvailable c"
    and lt: "s < e"
    by (auto simp: passes_checks_def split: option.splits)
  have "find_conflicting (bookings db @ [b1]) i guest_blocking (startDate b1) (endDate b1) \<noteq> []"
    using b1 lt by (intro conflict_after_append) (simp_all add: guest_blocking_def)
  then have "createGuestBooking (db1 b1) greq now2 p2 = (db1 b1, Inl DatesNotAvailable)"
    using n2 lt c b1 r by (simp add: createGuestBooking_def db1_def)
  with r1 b1(1)
  show "\<exists>db1 b1. createGuestBooking db greq now1 True = (db1, Inr b1) \<and> status b1 = Pending \<and>
          createGuestBooking db1 greq now2 p2 = (db1, Inl DatesNotAvailable)"
    by blast
next
  assume a: "passes_checks db req now1 \<and>
    req_startDate req = Some s' \<and> req_endDate req = Some e' \<and> req_car req = Some i' \<and>
    now2 < s' \<and> find_conflicting (bookings db) i' auth_blocking s' e' = []"
  then have pc: "passes_checks db req now1" and n2: "now2 < s'"
    and r: "req_startDate req = Some s'" "req_endDate req = Some e'" "req_car req = Some i'"
    and nc: "find_conflicting (bookings db) i' auth_blocking s' e' = []"
    by simp_all
  define db1 where "db1 = (\<lambda>b. db\<lparr>bookings := bookings db @ [b]\<rparr>)"
  from createBooking_succeeds [OF pc r nc, of uid True] obtain b1 where
    r1: "createBooking db uid req now1 True = (db1 b1, Inr b1)"
    and b1: "status b1 = Pending" "car b1 = i'" "startDate b1 = s'" "endDate b1 = e'"
    unfolding db1_def by auto
  from pc r obtain c where c: "Car_findById (cars db) i' = Some c" "isAvailable c"
    and lt: "s' < e'"
    by (auto simp: passes_checks_def split: option.splits)
  have pc2: "passes_checks (db1 b1) req now2"
    using pc n2 r by (simp add: passes_checks_def db1_def)
  have nc2: "find_conflicting (bookings (db1 b1)) i' auth_blocking s' e' = []"
    using no_conflict_after_append [OF nc, of b1] b1(1) by (simp add: db1_def auth_blocking_def)
  from createBooking_succeeds [OF pc2 r nc2, of uid2 True]
  have second: "\<exists>db2 b2. createBooking (db1 b1) uid2 req now2 True = (db2, Inr b2) \<and> status b2 = Pending"
    by auto
  have third: "snd (createBooking (fst (updateBookingStatus (db1 b1) (Some (booking_id b1)) st)) uid2 req now2 p2)
               = Inl DatesNotAvailable" if st: "st \<in> {Confirmed, Active}" for st
  proof -
    have mem: "b1 \<in> set (bookings (db1 b1))" by (simp add: db1_def)
    then have "Booking_findById (bookings (db1 b1)) (booking_id b1) \<noteq> None"
      by (auto simp: Booking_findById_def find_None_iff)
    then obtain x where x: "Booking_findById (bookings (db1 b1)) (booking_id b1) = Some x" by blast
    have upd: "fst (updateBookingStatus (db1 b1) (Some (booking_id b1)) st) =
        (db1 b1)\<lparr>bookings := map (\<lambda>x. if booking_id x = booking_id b1 then x\<lparr>status := st\<rparr> else x) (bookings (db1 b1))\<rparr>"
      using x by (simp add: updateBookingStatus_def Booking_findByIdAndUpdate_def)
    have "find_conflicting (map (\<lambda>x. if booking_id x = booking_id b1 then x\<lparr>status := st\<rparr> else x) (bookings (db1 b1)))
           i' auth_blocking (startDate b1) (endDate b1) \<noteq> []"
      using mem b1 lt st by (intro conflict_after_status) (auto simp: auth_blocking_def)
    moreover have "cars (db1 b1) = cars db" by (simp add: db1_def)
    ultimately show ?thesis
      using n2 lt c b1 r by (simp add: upd createBooking_def)
  qed
  from r1 b1(1) second third
  show "\<exists>db1 b1. createBooking db uid req now1 True = (db1, Inr b1) \<and> status b1 = Pending \<and>
          (\<exists>db2 b2. createBooking db1 uid2 req now2 True = (db2, Inr b2) \<and> status b2 = Pending) \<and>
          (\<forall>st \<in> {Confirmed, Active}.
             snd (createBooking (fst (updateBookingStatus db1 (Some (booking_id b1)) st)) uid2 req now2 p2)
               = Inl DatesNotAvailable)"
    by blast
qed

theorem sequential_bookings_witness:
  "passes_checks ex_db (ex_greq 1 ex_start ex_end (ex_guest ''Ann'' ''555'')) ex_now \<and>
   passes_checks ex_db (ex_req 1 ex_start ex_end) ex_now \<and>
   createGuestBooking ex_db (ex_greq 1 ex_start ex_end (ex_guest ''Ann'' ''555'')) ex_now True =
     (ex_db\<lparr>users := [ex_user ''Ann'' ''555''],
            bookings := [ex_guest_booking 1 ex_start ex_end (ex_guest ''Ann'' ''555'')]\<rparr>,
      Inr (ex_guest_booking 1 ex_start ex_end (ex_guest ''Ann'' ''555''))) \<and>
   createGuestBooking
     (ex_db\<lparr>users := [ex_user ''Ann'' ''555''],
            bookings := [ex_guest_booking 1 ex_start ex_end (ex_guest ''Ann'' ''555'')]\<rparr>)
     (ex_greq 1 ex_start ex_end (ex_guest ''Ann'' ''555'')) (ex_now + 60000) True =
     (ex_db\<lparr>users := [ex_user ''Ann'' ''555''],
            bookings := [ex_guest_booking 1 ex_start ex_end (ex_guest ''Ann'' ''555'')]\<rparr>,
      Inl DatesNotAvailable) \<and>
   snd (createBooking (ex_db_with Confirmed) 9 (ex_req 1 ex_start ex_end) (ex_now + 60000) True) =
     Inl DatesNotAvailable"
  using sequential_bookings [of ex_db "ex_greq 1 ex_start ex_end (ex_guest ''Ann'' ''555'')" ex_now
      ex_start ex_end 1 "ex_now + 60000" True "ex_req 1 ex_start ex_end" ex_start ex_end 1 8 9]
    ex_createGuestBooking
  by (simp add: ex_defs route_defs passes_checks_def)

section \<open>Guest identities\<close>

text \<open>
  C7.  Start from a user collection with unique ids in which no two guest identities share
  an email (the empty collection, for one), and handle any sequence of guest requests
  (each with its request time and with a \<open>populate\<close> that returns or not).
  Afterwards no two guest identities share an email; for every booking that was made there
  is exactly one guest identity with the request's email, and the booking's \<open>user\<close> is its
  id, so that all bookings of one email share one id; a guest identity that existed before
  is still the only one of its email, under its old id; and after a last successful call
  the identity carries that request's name and phone.
\<close>

theorem guest_identity_upsert:
  assumes "users_ok (users db)" and "guest_run db calls = (db', rs)"
  shows "users_ok (users db') \<and>
     (\<forall>(c, r) \<in> set (zip calls rs). \<forall>b. r = Inr b \<longrightarrow>
        (\<exists>u. guests_with (users db') (guest_email (req_guestInfo (fst c))) = [u] \<and>
             user_id u = user b)) \<and>
     (\<forall>u0 \<in> set (users db). isGuest u0 \<longrightarrow>
        (\<exists>u. guests_with (users db') (email u0) = [u] \<and> user_id u = user_id u0)) \<and>
     (calls \<noteq> [] \<longrightarrow> (\<forall>b. last rs = Inr b \<longrightarrow>
        (\<exists>u. guests_with (users db') (guest_email (req_guestInfo (fst (last calls)))) = [u] \<and>
             user_id u = user b \<and>
             name u = guest_name (req_guestInfo (fst (last calls))) \<and>
             phone u = guest_phone (req_guestInfo (fst (last calls))))))"
proof (intro conjI)
  from guest_run_invariant [OF assms] have inv: "users_ok (users db')" "guest_ids_kept (users db) (users db')"
    by simp_all
  show "users_ok (users db')" by (rule inv(1))
  show "\<forall>(c, r) \<in> set (zip calls rs). \<forall>b. r = Inr b \<longrightarrow>
        (\<exists>u. guests_with (users db') (guest_email (req_guestInfo (fst c))) = [u] \<and>
             user_id u = user b)"
    using guest_run_bookings [OF assms] by blast
  show "\<forall>u0 \<in> set (users db). isGuest u0 \<longrightarrow>
        (\<exists>u. guests_with (users db') (email u0) = [u] \<and> user_id u = user_id u0)"
  proof (intro ballI impI)
    fix u0 assume "u0 \<in> set (users db)" "isGuest u0"
    with inv(2) obtain u1 where u1: "u1 \<in> set (users db')" "isGuest u1" "email u1 = email u0"
      "user_id u1 = user_id u0"
      unfolding guest_ids_kept_def by blast
    from guests_with_single [OF inv(1) u1(1,2)] u1
    show "\<exists>u. guests_with (users db') (email u0) = [u] \<and> user_id u = user_id u0" by simp
  qed
  show "calls \<noteq> [] \<longrightarrow> (\<forall>b. last rs = Inr b \<longrightarrow>
        (\<exists>u. guests_with (users db') (guest_email (req_guestInfo (fst (last calls)))) = [u] \<and>
             user_id u = user b \<and>
             name u = guest_name (req_guestInfo (fst (last calls))) \<and>
             phone u = guest_phone (req_guestInfo (fst (last calls)))))"
    using guest_run_last [OF assms] by blast
qed

theorem guest_identity_upsert_witness:
  "users_ok (users ex_db) \<and>
   guest_run ex_db ex_calls =
     (ex_db_after,
      [Inr (ex_guest_booking 1 ex_start ex_end (ex_guest ''Ann'' ''555'')),
       Inr ((ex_guest_booking 2 (ex_end + 86400000) (ex_end + 259200000) (ex_guest ''Ann B.'' ''777''))
                 \<lparr>totalDays := 2, totalAmount := Num 100\<rparr>)]) \<and>
   users_ok (users ex_db_after) \<and>
   guests_with (users ex_db_after) ''ann@example.org'' = [ex_user ''Ann B.'' ''777''] \<and>
   user (ex_guest_booking 1 ex_start ex_end (ex_guest ''Ann'' ''555'')) = user_id (ex_user ''Ann B.'' ''777'') \<and>
   user (ex_guest_booking 2 (ex_end + 86400000) (ex_end + 259200000) (ex_guest ''Ann B.'' ''777'')) =
     user_id (ex_user ''Ann B.'' ''777'')"
proof -
  have h: "users_ok (users ex_db)"
    by (simp add: users_ok_def ex_db_def)
  from guest_identity_upsert [OF h ex_guest_run] have "users_ok (users ex_db_after)"
    by simp
  with h ex_guest_run show ?thesis
    by (simp add: ex_db_after_def ex_defs guests_with_def)
qed

end
